theory Spec2Isabelle
  imports Main "HOL-Library.Log_Nat"
begin

section \<open>JavaScript numbers\<close>

text \<open>
  Every amount, rate and share of the server is a JavaScript Number, an IEEE 754 double.
  A finite double is a rational, so \<open>number\<close> is \<open>rat\<close>, and each arithmetic operator is
  the exact operation followed by \<open>fl\<close>, rounding to the nearest double (53 significant
  bits, ties to even). Overflow to Infinity, subnormals and NaN are outside the model:
  the rates and shares of a work are taken to be finite numbers of ordinary size.
\<close>

type_synonym number = rat

definition pow2 :: "int \<Rightarrow> rat" where
  "pow2 e = (if 0 \<le> e then 2 ^ nat e else 1 / 2 ^ nat (- e))"

definition rne :: "rat \<Rightarrow> int" where
  \<comment> \<open>the nearest integer, a tie going to the even one\<close>
  "rne x = (let f = \<lfloor>x\<rfloor>; d = x - of_int f in
            if d < 1 / 2 then f else if 1 / 2 < d then f + 1
            else if even f then f else f + 1)"

definition ilog2 :: "rat \<Rightarrow> int" where
  \<comment> \<open>for \<open>0 < x\<close>: the \<open>d\<close> with \<open>2^d \<le> x < 2^(d+1)\<close>\<close>
  "ilog2 x = (case quotient_of x of (p, q) \<Rightarrow>
      let d = bitlen p - bitlen q in if pow2 d \<le> x then d else d - 1)"

definition fl :: "rat \<Rightarrow> number" where
  "fl x = (if x = 0 then 0 else
      let e = ilog2 \<bar>x\<bar> - 52 in of_int (rne (x / pow2 e)) * pow2 e)"

definition fmul :: "number \<Rightarrow> number \<Rightarrow> number" where
  "fmul a b = fl (a * b)"

definition fdiv :: "number \<Rightarrow> number \<Rightarrow> number" where
  "fdiv a b = fl (a / b)"

definition fadd :: "number \<Rightarrow> number \<Rightarrow> number" where
  "fadd a b = fl (a + b)"

definition fsub :: "number \<Rightarrow> number \<Rightarrow> number" where
  "fsub a b = fl (a - b)"

definition lit :: "rat \<Rightarrow> number" where
  \<comment> \<open>a decimal literal of the source, such as \<open>0.7\<close>\<close>
  "lit q = fl q"

section \<open>Data model\<close>

text \<open>
  ObjectIds are kept as their 24-digit hexadecimal rendering, dates as milliseconds since
  the epoch, and the string-valued enums of the schemas as strings.
\<close>

type_synonym oid = string
type_synonym date = int

subsection \<open>Music (the work)\<close>

record rights_holder =
  name :: string
  lmkMemberNumber :: string
  sharePercentage :: number

record royalty_rate =
  mechanical :: "number option"
  performance :: "number option"
  synchronization :: "number option"

record lmk_info =
  publishers :: "rights_holder list option"
  composers :: "rights_holder list option"
  lyricists :: "rights_holder list option"
  complianceStatus :: string
  royaltyRate :: royalty_rate

record business_license =
  allowedBusinessTypes :: "string list"

record analytics =
  totalPlays :: number
  businessPlays :: number
  lastPlayed :: "date option"

record music =
  music_id :: oid
  music_artist :: oid
  music_duration :: number
  lmkInfo :: lmk_info
  businessLicense :: business_license
  music_analytics :: analytics
  music_status :: string
  isActive :: bool

subsection \<open>The business user of a request\<close>

record address =
  street :: "string option"
  addr_city :: "string option"
  addr_province :: "string option"

record business_info =
  businessType :: string
  companyName :: string
  business_address :: "address option"

record user =
  user_id :: oid
  businessInfo :: business_info

subsection \<open>RoyaltyTransaction\<close>

record location =
  businessName :: string
  loc_address :: "string option"
  city :: "string option"
  province :: "string option"

record device_info =
  deviceId :: "string option"
  ipAddress :: "string option"
  userAgent :: "string option"

record play_info =
  playType :: string
  playDate :: date
  duration :: number
  play_location :: location
  deviceInfo :: "device_info option"

record share =
  amount :: number
  percentage :: number

record payee_share =
  payee_lmkMemberNumber :: string
  payee_name :: string
  payee_amount :: number
  payee_percentage :: number

record distribution =
  dist_artist :: share
  dist_publishers :: "payee_share list"
  dist_composers :: "payee_share list"
  dist_lyricists :: "payee_share list"
  lmkFee :: share
  platformFee :: share

record royalty_info =
  baseRate :: number
  calculatedAmount :: number
  currency :: string
  dist :: distribution

record lmk_compliance =
  reportingStatus :: string
  reportedToLMK :: "date option"

record payment_info =
  status :: string
  paymentDate :: "date option"
  paymentMethod :: string
  transactionId :: "string option"

record audit_entry =
  action :: "string option"
  performedBy :: "oid option"
  timestamp :: date
  details :: "string option"

record verification =
  isVerified :: bool
  auditTrail :: "audit_entry list"

record transaction =
  tx_id :: oid
  tx_music :: oid
  tx_business :: oid
  tx_artist :: oid
  playInfo :: play_info
  royaltyInfo :: royalty_info
  lmkCompliance :: lmk_compliance
  paymentInfo :: payment_info
  verification :: verification
  source :: string
  createdAt :: date
  updatedAt :: date

subsection \<open>The database\<close>

record db =
  musics :: "music list"
  transactions :: "transaction list"

section \<open>Music model methods\<close>

definition isAvailableForBusiness :: "music \<Rightarrow> string \<Rightarrow> bool" where
  "isAvailableForBusiness m bt =
     (if \<not> isActive m \<or> music_status m \<noteq> ''published'' then False
      else if complianceStatus (lmkInfo m) \<noteq> ''approved'' then False
      else length (allowedBusinessTypes (businessLicense m)) = 0
           \<or> bt \<in> set (allowedBusinessTypes (businessLicense m)))"

definition calculateRoyalty :: "music \<Rightarrow> string option \<Rightarrow> number option" where
  \<comment> \<open>the parameter defaults to \<open>'background'\<close>; the result is undefined (\<open>None\<close>) when the
      selected rate is\<close>
  "calculateRoyalty m pt =
     (let baseRate = royaltyRate (lmkInfo m);
          playType = (case pt of None \<Rightarrow> ''background'' | Some p \<Rightarrow> p)
      in if playType = ''commercial'' then synchronization baseRate
         else if playType = ''performance'' then performance baseRate
         else mechanical baseRate)"

section \<open>RoyaltyTransaction model methods\<close>

definition isPaymentOverdue :: "transaction \<Rightarrow> date \<Rightarrow> bool" where
  \<comment> \<open>\<open>now\<close> is what \<open>new Date()\<close> reads\<close>
  "isPaymentOverdue t now =
     (if status (paymentInfo t) = ''completed'' then False
      else let daysSincePlay = fdiv (fsub (of_int now) (of_int (playDate (playInfo t))))
                                    (fmul (fmul (fmul 1000 60) 60) 24)
           in 30 < daysSincePlay)"

definition getPendingLMKReports :: "db \<Rightarrow> transaction list" where
  "getPendingLMKReports d =
     filter (\<lambda>t. reportingStatus (lmkCompliance t) = ''pending''
                 \<and> status (paymentInfo t) = ''completed'') (transactions d)"

section \<open>Update documents\<close>

text \<open>
  The payment route changes transactions only through update documents handed to
  \<open>bulkWrite\<close> and \<open>updateMany\<close>. The documents are modelled as the route writes them, and
  \<open>apply_update\<close> is what Mongoose and MongoDB do with one: a top-level key that does not
  begin with \<open>$\<close> is a field assignment (Mongoose moves it under \<open>$set\<close>), \<open>$set\<close> assigns
  each of its paths, \<open>$push\<close> appends to the array at each of its paths, and every
  assigned value is cast to the schema type of its path, keys that the schema does not
  declare being dropped (strict mode). A path the route never writes is left alone.
\<close>

datatype json =
    JStr string
  | JNum number
  | JDate date
  | JId oid
  | JObj "(string \<times> json) list"
  | JArr "json list"

fun lookup_key :: "string \<Rightarrow> (string \<times> json) list \<Rightarrow> json option" where
  "lookup_key k [] = None"
| "lookup_key k ((k', v) # kvs) = (if k = k' then Some v else lookup_key k kvs)"

definition cast_string :: "json option \<Rightarrow> string option" where
  "cast_string v = (case v of Some (JStr s) \<Rightarrow> Some s | _ \<Rightarrow> None)"

definition cast_oid :: "json option \<Rightarrow> oid option" where
  "cast_oid v = (case v of Some (JId i) \<Rightarrow> Some i | Some (JStr s) \<Rightarrow> Some s | _ \<Rightarrow> None)"

definition cast_date :: "json option \<Rightarrow> date option" where
  "cast_date v = (case v of Some (JDate d) \<Rightarrow> Some d | _ \<Rightarrow> None)"

definition cast_entry :: "date \<Rightarrow> json \<Rightarrow> audit_entry" where
  \<comment> \<open>one element of \<open>verification.auditTrail\<close>: the four declared keys are read, anything
      else is dropped, and \<open>timestamp\<close> defaults to \<open>Date.now\<close>\<close>
  "cast_entry now v =
     (let kvs = (case v of JObj kvs \<Rightarrow> kvs | _ \<Rightarrow> [])
      in \<lparr> action = cast_string (lookup_key ''action'' kvs),
           performedBy = cast_oid (lookup_key ''performedBy'' kvs),
           timestamp = (case cast_date (lookup_key ''timestamp'' kvs) of
                          Some d \<Rightarrow> d | None \<Rightarrow> now),
           details = cast_string (lookup_key ''details'' kvs) \<rparr>)"

definition cast_trail :: "date \<Rightarrow> json \<Rightarrow> audit_entry list" where
  \<comment> \<open>a value that is not an array is cast as the array holding it\<close>
  "cast_trail now v = (case v of JArr xs \<Rightarrow> map (cast_entry now) xs | _ \<Rightarrow> [cast_entry now v])"

definition set_path :: "date \<Rightarrow> string \<times> json \<Rightarrow> transaction \<Rightarrow> transaction" where
  "set_path now kv t =
     (case kv of (path, v) \<Rightarrow>
        if path = ''paymentInfo.status'' then
          (case v of JStr s \<Rightarrow> t\<lparr>paymentInfo := (paymentInfo t)\<lparr>status := s\<rparr>\<rparr> | _ \<Rightarrow> t)
        else if path = ''paymentInfo.paymentDate'' then
          (case v of JDate d \<Rightarrow> t\<lparr>paymentInfo := (paymentInfo t)\<lparr>paymentDate := Some d\<rparr>\<rparr> | _ \<Rightarrow> t)
        else if path = ''paymentInfo.paymentMethod'' then
          (case v of JStr s \<Rightarrow> t\<lparr>paymentInfo := (paymentInfo t)\<lparr>paymentMethod := s\<rparr>\<rparr> | _ \<Rightarrow> t)
        else if path = ''paymentInfo.transactionId'' then
          (case v of JStr s \<Rightarrow> t\<lparr>paymentInfo := (paymentInfo t)\<lparr>transactionId := Some s\<rparr>\<rparr> | _ \<Rightarrow> t)
        else if path = ''lmkCompliance.reportingStatus'' then
          (case v of JStr s \<Rightarrow> t\<lparr>lmkCompliance := (lmkCompliance t)\<lparr>reportingStatus := s\<rparr>\<rparr> | _ \<Rightarrow> t)
        else if path = ''lmkCompliance.reportedToLMK'' then
          (case v of JDate d \<Rightarrow> t\<lparr>lmkCompliance := (lmkCompliance t)\<lparr>reportedToLMK := Some d\<rparr>\<rparr> | _ \<Rightarrow> t)
        else if path = ''verification.auditTrail'' then
          t\<lparr>verification := (verification t)\<lparr>auditTrail := cast_trail now v\<rparr>\<rparr>
        else t)"

definition push_path :: "date \<Rightarrow> string \<times> json \<Rightarrow> transaction \<Rightarrow> transaction" where
  "push_path now kv t =
     (case kv of (path, v) \<Rightarrow>
        if path = ''verification.auditTrail'' then
          t\<lparr>verification := (verification t)
               \<lparr>auditTrail := auditTrail (verification t) @ [cast_entry now v]\<rparr>\<rparr>
        else t)"

definition apply_op :: "date \<Rightarrow> string \<times> json \<Rightarrow> transaction \<Rightarrow> transaction" where
  "apply_op now kv t =
     (case kv of (k, v) \<Rightarrow>
        if k = ''$set'' then
          (case v of JObj kvs \<Rightarrow> fold (set_path now) kvs t | _ \<Rightarrow> t)
        else if k = ''$push'' then
          (case v of JObj kvs \<Rightarrow> fold (push_path now) kvs t | _ \<Rightarrow> t)
        else set_path now (k, v) t)"

definition apply_update :: "date \<Rightarrow> (string \<times> json) list \<Rightarrow> transaction \<Rightarrow> transaction" where
  "apply_update now upd t = fold (apply_op now) upd t"

section \<open>POST /play\<close>

datatype error =
    MISSING_MUSIC_ID
  | MUSIC_NOT_FOUND
  | MUSIC_NOT_AVAILABLE string "string list"
  | PLAY_RECORD_ERROR
  | MISSING_TRANSACTION_IDS
  | NO_PENDING_TRANSACTIONS
  | PAYMENT_PROCESS_ERROR

record req_location =
  req_address :: "string option"
  req_city :: "string option"
  req_province :: "string option"

record play_request =
  req_musicId :: "oid option"
  req_playType :: "string option"
  req_duration :: "number option"
  req_location :: "req_location option"
  req_deviceInfo :: "device_info option"

record play_response =
  resp_id :: oid
  resp_calculatedAmount :: number
  resp_currency :: string
  resp_playType :: string
  resp_lmkCompliance :: lmk_compliance

definition str_or :: "string option \<Rightarrow> string option \<Rightarrow> string option" where
  \<comment> \<open>\<open>a || b\<close> on optional strings: undefined and the empty string are falsy\<close>
  "str_or a b = (case a of None \<Rightarrow> b | Some s \<Rightarrow> if s = [] then b else Some s)"

definition num_or :: "number option \<Rightarrow> number \<Rightarrow> number" where
  \<comment> \<open>\<open>a || b\<close> on an optional number: undefined and 0 are falsy\<close>
  "num_or a b = (case a of None \<Rightarrow> b | Some x \<Rightarrow> if x = 0 then b else x)"

definition payee :: "number \<Rightarrow> number \<Rightarrow> rights_holder \<Rightarrow> payee_share" where
  \<comment> \<open>\<open>calculatedAmount * (sharePercentage / 100) * factor\<close>\<close>
  "payee amt factor h =
     \<lparr> payee_lmkMemberNumber = lmkMemberNumber h,
       payee_name = name h,
       payee_amount = fmul (fmul amt (fdiv (sharePercentage h) 100)) factor,
       payee_percentage = sharePercentage h \<rparr>"

definition payees :: "number \<Rightarrow> number \<Rightarrow> rights_holder list option \<Rightarrow> payee_share list" where
  \<comment> \<open>\<open>list?.map(...) || []\<close>\<close>
  "payees amt factor hs =
     (case hs of None \<Rightarrow> [] | Some xs \<Rightarrow> map (payee amt factor) xs)"

definition computeDistribution :: "music \<Rightarrow> number \<Rightarrow> distribution" where
  "computeDistribution m amt =
     \<lparr> dist_artist = \<lparr> amount = fmul amt (lit (7 / 10)), percentage = 70 \<rparr>,
       dist_publishers = payees amt (lit (15 / 100)) (publishers (lmkInfo m)),
       dist_composers = payees amt (lit (1 / 10)) (composers (lmkInfo m)),
       dist_lyricists = payees amt (lit (5 / 100)) (lyricists (lmkInfo m)),
       lmkFee = \<lparr> amount = fmul amt (lit (5 / 100)), percentage = 5 \<rparr>,
       platformFee = \<lparr> amount = fmul amt (lit (1 / 10)), percentage = 10 \<rparr> \<rparr>"

definition newTransaction ::
  "user \<Rightarrow> oid \<Rightarrow> date \<Rightarrow> play_request \<Rightarrow> music \<Rightarrow> string \<Rightarrow> number \<Rightarrow> transaction" where
  \<comment> \<open>the document built by \<open>new RoyaltyTransaction({...})\<close>, with the schema defaults\<close>
  "newTransaction u newId now req m pt rate =
     (let amt = rate;
          loc = req_location req;
          adr = business_address (businessInfo u)
      in \<lparr> tx_id = newId,
           tx_music = music_id m,
           tx_business = user_id u,
           tx_artist = music_artist m,
           playInfo = \<lparr> playType = pt, playDate = now,
             duration = num_or (req_duration req) (music_duration m),
             play_location = \<lparr> businessName = companyName (businessInfo u),
               loc_address = str_or (Option.bind loc req_address) (Option.bind adr street),
               city = str_or (Option.bind loc req_city) (Option.bind adr addr_city),
               province = str_or (Option.bind loc req_province) (Option.bind adr addr_province) \<rparr>,
             deviceInfo = req_deviceInfo req \<rparr>,
           royaltyInfo = \<lparr> baseRate = rate, calculatedAmount = amt,
             currency = ''IDR'', dist = computeDistribution m amt \<rparr>,
           lmkCompliance = \<lparr> reportingStatus = ''pending'', reportedToLMK = None \<rparr>,
           paymentInfo = \<lparr> status = ''pending'', paymentDate = None,
             paymentMethod = ''bank_transfer'', transactionId = None \<rparr>,
           verification = \<lparr> isVerified = False, auditTrail = [] \<rparr>,
           source = ''web_player'',
           createdAt = now,
           updatedAt = now \<rparr>)"

definition playTypes :: "string list" where
  "playTypes = [''background'', ''foreground'', ''commercial'', ''promotional'']"

fun update_first :: "('a \<Rightarrow> bool) \<Rightarrow> ('a \<Rightarrow> 'a) \<Rightarrow> 'a list \<Rightarrow> 'a list" where
  \<comment> \<open>an update of one document: the first that matches the filter\<close>
  "update_first P f [] = []"
| "update_first P f (x # xs) = (if P x then f x # xs else x # update_first P f xs)"

definition incPlays :: "date \<Rightarrow> music \<Rightarrow> music" where
  "incPlays now m = m\<lparr>music_analytics := (music_analytics m)
     \<lparr> totalPlays := fadd (totalPlays (music_analytics m)) 1,
       businessPlays := fadd (businessPlays (music_analytics m)) 1,
       lastPlayed := Some now \<rparr>\<rparr>"

definition recordPlay ::
  "user \<Rightarrow> oid \<Rightarrow> date \<Rightarrow> bool \<Rightarrow> bool \<Rightarrow> play_request \<Rightarrow> db \<Rightarrow> (error + play_response) \<times> db" where
  \<comment> \<open>\<open>u\<close> is \<open>req.user\<close>, \<open>newId\<close> the ObjectId of the new document, \<open>now\<close> the clock,
      \<open>saveOk\<close> and \<open>updOk\<close> whether the database accepts the two writes. A play type
      outside the schema's enum or an undefined rate fails the validation of \<open>save\<close>.
      The id of the request is a well-formed ObjectId and the artist of the work exists,
      so that \<open>findById\<close> and \<open>populate\<close> do not throw.\<close>
  "recordPlay u newId now saveOk updOk req d =
     (case req_musicId req of
        None \<Rightarrow> (Inl MISSING_MUSIC_ID, d)
      | Some musicId \<Rightarrow>
          if musicId = [] then (Inl MISSING_MUSIC_ID, d)
          else
            (case find (\<lambda>m. music_id m = musicId) (musics d) of
               None \<Rightarrow> (Inl MUSIC_NOT_FOUND, d)
             | Some m \<Rightarrow>
                 if \<not> isAvailableForBusiness m (businessType (businessInfo u)) then
                   (Inl (MUSIC_NOT_AVAILABLE (businessType (businessInfo u))
                           (allowedBusinessTypes (businessLicense m))), d)
                 else
                   (let pt = (case req_playType req of None \<Rightarrow> ''background'' | Some p \<Rightarrow> p)
                    in case calculateRoyalty m (Some pt) of
                         None \<Rightarrow> (Inl PLAY_RECORD_ERROR, d)
                       | Some rate \<Rightarrow>
                           let t = newTransaction u newId now req m pt rate in
                           if pt \<notin> set playTypes \<or> \<not> saveOk then (Inl PLAY_RECORD_ERROR, d)
                           else
                             let d1 = d\<lparr>transactions := transactions d @ [t]\<rparr> in
                             if \<not> updOk then (Inl PLAY_RECORD_ERROR, d1)
                             else
                               (Inr \<lparr> resp_id = tx_id t,
                                      resp_calculatedAmount = calculatedAmount (royaltyInfo t),
                                      resp_currency = ''IDR'',
                                      resp_playType = pt,
                                      resp_lmkCompliance = lmkCompliance t \<rparr>,
                                d1\<lparr>musics := update_first (\<lambda>m. music_id m = musicId)
                                                 (incPlays now) (musics d1)\<rparr>))))"

section \<open>POST /process-payment\<close>

text \<open>
  The handler awaits the database twice: the \<open>find\<close>, then the \<open>bulkWrite\<close>. Other
  handlers and timer callbacks run in between, so the two are separate steps:
  \<open>processPayment_find\<close> ends with what the handler holds while it waits for the
  documents, and \<open>processPayment_write\<close> is the rest of the handler, run on the store as
  it is by then. \<open>processPayment\<close> is the handler when nothing runs in between.

  The ids of the request are strings. In the filter \<open>_id: {$in: transactionIds}\<close> each is
  cast to an ObjectId: a string of 24 hexadecimal digits in either case denotes the
  ObjectId written in lower case, and any other string makes the query throw a
  CastError, which the handler's \<open>catch\<close> answers with \<open>PAYMENT_PROCESS_ERROR\<close>.

  After the \<open>find\<close> the handler reads the clock several times within a few
  instructions; the model gives them one reading, \<open>now\<close>. \<open>toStr\<close> is JavaScript's
  conversion of a number to a string, used by the two template strings. The callback
  handed to \<open>setTimeout\<close> is kept in the server state as a timer holding what the
  callback closes over, and runs as a step of its own (\<open>completePayment\<close>). The
  \<open>bulkWrite\<close> and the \<open>updateMany\<close> are taken to succeed once their filters are cast.

  The amounts of the stored transactions are finite; their running total is a double
  that may overflow, so it is an \<open>xnumber\<close>.
\<close>

definition hex_digit :: "char \<Rightarrow> bool" where
  "hex_digit c \<longleftrightarrow> c \<in> set ''0123456789abcdefABCDEF''"

definition lower_hex :: "char \<Rightarrow> char" where
  "lower_hex c =
     (if c = CHR ''A'' then CHR ''a'' else if c = CHR ''B'' then CHR ''b''
      else if c = CHR ''C'' then CHR ''c'' else if c = CHR ''D'' then CHR ''d''
      else if c = CHR ''E'' then CHR ''e'' else if c = CHR ''F'' then CHR ''f'' else c)"

definition castObjectId :: "string \<Rightarrow> oid option" where
  "castObjectId s =
     (if length s = 24 \<and> list_all hex_digit s then Some (map lower_hex s) else None)"

definition castObjectIds :: "string list \<Rightarrow> oid list option" where
  \<comment> \<open>the cast of the array under \<open>$in\<close>: it fails when one element does\<close>
  "castObjectIds ids =
     (if list_all (\<lambda>i. castObjectId i \<noteq> None) ids
      then Some (List.map_filter castObjectId ids) else None)"

datatype xnumber = Finite number | PosInfinity | NegInfinity

definition max_double :: rat where
  "max_double = (2 ^ 53 - 1) * 2 ^ 971"

definition xadd :: "xnumber \<Rightarrow> number \<Rightarrow> xnumber" where
  \<comment> \<open>\<open>total + amount\<close> for a finite amount: the rounded sum, or an infinity when it is
      beyond the largest double\<close>
  "xadd a b =
     (case a of
        Finite x \<Rightarrow>
          (let r = fl (x + b)
           in if max_double < r then PosInfinity
              else if r < - max_double then NegInfinity else Finite r)
      | PosInfinity \<Rightarrow> PosInfinity
      | NegInfinity \<Rightarrow> NegInfinity)"

record payment_request =
  req_transactionIds :: "string list option"
  req_paymentMethod :: "string option"

record payment_response =
  processedTransactions :: nat
  totalAmount :: xnumber
  resp_currency' :: string

record handler =
  h_ids :: "string list"
  h_found :: "transaction list"
  h_pm :: string
  h_admin :: oid

record timer =
  timer_ids :: "string list"
  timer_user :: oid
  due :: date

record server =
  store :: db
  timers :: "timer list"
  awaiting :: "handler list"
  clock :: date

definition slice_last6 :: "string \<Rightarrow> string" where
  \<comment> \<open>\<open>s.slice(-6)\<close>\<close>
  "slice_last6 s = drop (length s - 6) s"

definition initiate_update ::
  "oid \<Rightarrow> (number \<Rightarrow> string) \<Rightarrow> date \<Rightarrow> string \<Rightarrow> transaction \<Rightarrow> (string \<times> json) list" where
  \<comment> \<open>the object \<open>update\<close> of the loop; its last key is \<open>verification.auditTrail\<close> with an
      object under \<open>$push\<close> as value\<close>
  "initiate_update admin toStr now pm t =
     [ (''paymentInfo.status'', JStr ''processing''),
       (''paymentInfo.paymentDate'', JDate now),
       (''paymentInfo.paymentMethod'', JStr pm),
       (''paymentInfo.transactionId'',
          JStr (''PAY_'' @ toStr (of_int now) @ ''_'' @ slice_last6 (tx_id t))),
       (''verification.auditTrail'',
          JObj [(''$push'',
            JObj [ (''action'', JStr ''payment_initiated''),
                   (''performedBy'', JId admin),
                   (''timestamp'', JDate now),
                   (''details'', JStr (''Payment processing initiated for ''
                      @ toStr (calculatedAmount (royaltyInfo t)) @ '' IDR'')) ])]) ]"

definition completion_update :: "oid \<Rightarrow> date \<Rightarrow> (string \<times> json) list" where
  \<comment> \<open>the update document of the deferred \<open>updateMany\<close>\<close>
  "completion_update admin now =
     [ (''$set'',
          JObj [ (''paymentInfo.status'', JStr ''completed''),
                 (''lmkCompliance.reportingStatus'', JStr ''reported''),
                 (''lmkCompliance.reportedToLMK'', JDate now) ]),
       (''$push'',
          JObj [ (''verification.auditTrail'',
            JObj [ (''action'', JStr ''payment_completed''),
                   (''performedBy'', JId admin),
                   (''timestamp'', JDate now),
                   (''details'', JStr ''Payment completed and reported to LMK'') ]) ]) ]"

fun payment_loop ::
  "oid \<Rightarrow> (number \<Rightarrow> string) \<Rightarrow> date \<Rightarrow> string \<Rightarrow> transaction list
     \<Rightarrow> (oid \<times> (string \<times> json) list) list \<times> xnumber
     \<Rightarrow> (oid \<times> (string \<times> json) list) list \<times> xnumber" where
  \<comment> \<open>the \<open>for\<close> loop over the found transactions, on \<open>(updates, totalAmount)\<close>\<close>
  "payment_loop admin toStr now pm [] acc = acc"
| "payment_loop admin toStr now pm (t # ts) (updates, tot) =
     payment_loop admin toStr now pm ts
       (updates @ [(tx_id t, initiate_update admin toStr now pm t)],
        xadd tot (calculatedAmount (royaltyInfo t)))"

fun bulkWrite :: "date \<Rightarrow> (oid \<times> (string \<times> json) list) list \<Rightarrow> transaction list \<Rightarrow> transaction list" where
  \<comment> \<open>one \<open>updateOne\<close> after the other, each on the first document with the id of its
      filter, whatever the status of that document\<close>
  "bulkWrite now [] ts = ts"
| "bulkWrite now ((i, upd) # ops) ts =
     bulkWrite now ops (update_first (\<lambda>t. tx_id t = i) (apply_update now upd) ts)"

definition updateMany ::
  "date \<Rightarrow> (transaction \<Rightarrow> bool) \<Rightarrow> (string \<times> json) list \<Rightarrow> transaction list \<Rightarrow> transaction list" where
  "updateMany now P upd ts = map (\<lambda>t. if P t then apply_update now upd t else t) ts"

definition processPayment_find :: "oid \<Rightarrow> payment_request \<Rightarrow> db \<Rightarrow> error + handler" where
  \<comment> \<open>the handler up to the documents that the \<open>find\<close> returns\<close>
  "processPayment_find admin req d =
     (case req_transactionIds req of
        None \<Rightarrow> Inl MISSING_TRANSACTION_IDS
      | Some transactionIds \<Rightarrow>
          (case castObjectIds transactionIds of
             None \<Rightarrow> Inl PAYMENT_PROCESS_ERROR
           | Some ids \<Rightarrow>
               let found = filter (\<lambda>t. tx_id t \<in> set ids
                                    \<and> status (paymentInfo t) = ''pending'')
                             (transactions d)
               in if length found = 0 then Inl NO_PENDING_TRANSACTIONS
                  else Inr \<lparr> h_ids = transactionIds, h_found = found,
                             h_pm = (case req_paymentMethod req of
                                       None \<Rightarrow> ''bank_transfer'' | Some m \<Rightarrow> m),
                             h_admin = admin \<rparr>))"

definition processPayment_write ::
  "(number \<Rightarrow> string) \<Rightarrow> date \<Rightarrow> handler \<Rightarrow> server \<Rightarrow> payment_response \<times> server" where
  \<comment> \<open>the handler from the loop on: the updates are built from the documents it holds
      and written to the store as it is now\<close>
  "processPayment_write toStr now h s =
     (case payment_loop (h_admin h) toStr now (h_pm h) (h_found h) ([], Finite 0) of
        (updates, tot) \<Rightarrow>
          (\<lparr> processedTransactions = length (h_found h),
             totalAmount = tot,
             resp_currency' = ''IDR'' \<rparr>,
           s\<lparr> store := (store s)
                \<lparr>transactions := bulkWrite now updates (transactions (store s))\<rparr>,
              timers := timers s @
                [\<lparr> timer_ids = h_ids h, timer_user = h_admin h, due = now + 5000 \<rparr>] \<rparr>))"

definition processPayment ::
  "oid \<Rightarrow> (number \<Rightarrow> string) \<Rightarrow> date \<Rightarrow> payment_request \<Rightarrow> server
     \<Rightarrow> (error + payment_response) \<times> server" where
  "processPayment admin toStr now req s =
     (case processPayment_find admin req (store s) of
        Inl e \<Rightarrow> (Inl e, s)
      | Inr h \<Rightarrow>
          (case processPayment_write toStr now h s of (r, s') \<Rightarrow> (Inr r, s')))"

definition resume :: "(number \<Rightarrow> string) \<Rightarrow> date \<Rightarrow> nat \<Rightarrow> server \<Rightarrow> server" where
  \<comment> \<open>the \<open>i\<close>-th waiting handler gets its documents and runs to its end; used for
      \<open>i < length (awaiting s)\<close> only\<close>
  "resume toStr now i s =
     (snd (processPayment_write toStr now (awaiting s ! i) s))
       \<lparr> awaiting := take i (awaiting s) @ drop (Suc i) (awaiting s) \<rparr>"

definition completePayment :: "date \<Rightarrow> timer \<Rightarrow> db \<Rightarrow> db" where
  \<comment> \<open>the body of the timer callback, run at time \<open>now\<close>; a CastError is caught and logged\<close>
  "completePayment now tm d =
     (case castObjectIds (timer_ids tm) of
        None \<Rightarrow> d
      | Some ids \<Rightarrow>
          d\<lparr>transactions :=
              updateMany now (\<lambda>t. tx_id t \<in> set ids)
                (completion_update (timer_user tm) now) (transactions d)\<rparr>)"

definition fire :: "date \<Rightarrow> nat \<Rightarrow> server \<Rightarrow> server" where
  \<comment> \<open>the \<open>i\<close>-th waiting timer runs and is gone; used for \<open>i < length (timers s)\<close> only\<close>
  "fire now i s =
     s\<lparr> store := completePayment now (timers s ! i) (store s),
        timers := take i (timers s) @ drop (Suc i) (timers s) \<rparr>"

section \<open>Reachable server states\<close>

text \<open>
  The server starts with a catalogue and no transaction. A step is a run between two
  awaits of the payment handler, a run of \<open>POST /play\<close>, or a timer callback; time may
  also pass with nothing written (a request answered with an error). The clock never
  goes back, and a timer runs no sooner than it is due. The id that \<open>POST /play\<close>
  gives a new transaction is fresh, as ObjectIds are. The catalogue may change between
  steps (other routes edit it).
\<close>

inductive reachable :: "server \<Rightarrow> bool" where
  init: "reachable \<lparr> store = \<lparr> musics = ms, transactions = [] \<rparr>, timers = [],
                      awaiting = [], clock = t0 \<rparr>"
| idle: "reachable s \<Longrightarrow> clock s \<le> now \<Longrightarrow> reachable (s\<lparr> clock := now \<rparr>)"
| catalogue: "reachable s \<Longrightarrow>
     reachable (s\<lparr> store := (store s)\<lparr>musics := ms\<rparr> \<rparr>)"
| play: "reachable s \<Longrightarrow> clock s \<le> now \<Longrightarrow> newId \<notin> tx_id ` set (transactions (store s)) \<Longrightarrow>
     reachable (s\<lparr> store := snd (recordPlay u newId now saveOk updOk req (store s)),
                    clock := now \<rparr>)"
| pay_find: "reachable s \<Longrightarrow> processPayment_find admin req (store s) = Inr h \<Longrightarrow>
     reachable (s\<lparr> awaiting := awaiting s @ [h] \<rparr>)"
| pay_write: "reachable s \<Longrightarrow> clock s \<le> now \<Longrightarrow> i < length (awaiting s) \<Longrightarrow>
     reachable ((resume toStr now i s)\<lparr> clock := now \<rparr>)"
| complete: "reachable s \<Longrightarrow> clock s \<le> now \<Longrightarrow> i < length (timers s) \<Longrightarrow>
     due (timers s ! i) \<le> now \<Longrightarrow>
     reachable ((fire now i s)\<lparr> clock := now \<rparr>)"

section \<open>Auxiliary notions\<close>

text \<open>
  \<open>initiated\<close> is what one \<open>updateOne\<close> of the batch does to the transaction it was built
  from. \<open>in_step\<close> is what the two status fields of a transaction keep to in every
  reachable state, and \<open>store_ok\<close> says that every transaction of the store does.
\<close>

definition initiated :: "oid \<Rightarrow> (number \<Rightarrow> string) \<Rightarrow> date \<Rightarrow> string \<Rightarrow> transaction \<Rightarrow> transaction" where
  "initiated admin toStr now pm t = apply_update now (initiate_update admin toStr now pm t) t"

definition in_step :: "transaction \<Rightarrow> bool" where
  "in_step t \<longleftrightarrow>
     (reportingStatus (lmkCompliance t) = ''pending''
        \<and> (status (paymentInfo t) = ''pending'' \<or> status (paymentInfo t) = ''processing''))
     \<or> (reportingStatus (lmkCompliance t) = ''reported''
        \<and> (status (paymentInfo t) = ''completed'' \<or> status (paymentInfo t) = ''processing''))"

definition store_ok :: "server \<Rightarrow> bool" where
  "store_ok s \<longleftrightarrow> (\<forall>t\<in>set (transactions (store s)). in_step t)"

section \<open>Example data\<close>

definition ex_holder :: "number \<Rightarrow> rights_holder" where
  "ex_holder p = \<lparr> name = ''Publisher'', lmkMemberNumber = ''LMK-1'', sharePercentage = p \<rparr>"

definition ex_music :: "number \<Rightarrow> music" where
  "ex_music p =
     \<lparr> music_id = ''64b000000000000000000001'',
       music_artist = ''64a000000000000000000001'',
       music_duration = 180,
       lmkInfo = \<lparr> publishers = Some [ex_holder p, ex_holder p], composers = Some [],
                   lyricists = Some [], complianceStatus = ''approved'',
                   royaltyRate = \<lparr> mechanical = Some (lit (1 / 1000)),
                                    performance = Some (lit (1 / 1000)),
                                    synchronization = Some 5000 \<rparr> \<rparr>,
       businessLicense = \<lparr> allowedBusinessTypes = [] \<rparr>,
       music_analytics = \<lparr> totalPlays = 0, businessPlays = 0, lastPlayed = None \<rparr>,
       music_status = ''published'',
       isActive = True \<rparr>"

definition ex_user :: user where
  "ex_user = \<lparr> user_id = ''64c000000000000000000001'',
               businessInfo = \<lparr> businessType = ''cafe'', companyName = ''Kopi'',
                                business_address = None \<rparr> \<rparr>"

definition ex_req :: "string option \<Rightarrow> play_request" where
  "ex_req pt = \<lparr> req_musicId = Some ''64b000000000000000000001'', req_playType = pt,
                 req_duration = None, req_location = None, req_deviceInfo = None \<rparr>"

definition ex_db :: db where
  "ex_db = \<lparr> musics = [ex_music 50], transactions = [] \<rparr>"

definition ex_newId :: oid where
  "ex_newId = ''64d000000000000000000001''"

definition ex_tx :: transaction where
  "ex_tx = newTransaction ex_user ex_newId 1000 (ex_req (Some ''commercial'')) (ex_music 50)
             ''commercial'' 5000"

definition ex_resp :: play_response where
  "ex_resp = \<lparr> resp_id = ex_newId, resp_calculatedAmount = 5000, resp_currency = ''IDR'',
                resp_playType = ''commercial'',
                resp_lmkCompliance = \<lparr> reportingStatus = ''pending'', reportedToLMK = None \<rparr> \<rparr>"

definition ex_db' :: db where
  "ex_db' = \<lparr> musics = [incPlays 1000 (ex_music 50)], transactions = [ex_tx] \<rparr>"

text \<open>A payment scenario: two plays, two batches, \<open>ex_toStr\<close> standing for the number formatting.\<close>

definition ex_admin :: oid where
  "ex_admin = ''64e000000000000000000001''"

definition ex_toStr :: "number \<Rightarrow> string" where
  "ex_toStr n = ''5000''"

definition ex_newId2 :: oid where
  "ex_newId2 = ''64d000000000000000000002''"

definition ex_pay_req :: payment_request where
  "ex_pay_req = \<lparr> req_transactionIds = Some [ex_newId], req_paymentMethod = None \<rparr>"

definition ex_pay_req2 :: payment_request where
  "ex_pay_req2 = \<lparr> req_transactionIds = Some [ex_newId, ex_newId2], req_paymentMethod = None \<rparr>"

definition ex_s0 :: server where
  "ex_s0 = \<lparr> store = \<lparr> musics = [ex_music 50], transactions = [] \<rparr>, timers = [],
             awaiting = [], clock = 0 \<rparr>"

definition ex_s1 :: server where
  "ex_s1 = ex_s0\<lparr> store := snd (recordPlay ex_user ex_newId 1000 True True
                       (ex_req (Some ''commercial'')) (store ex_s0)), clock := 1000 \<rparr>"

definition ex_s2 :: server where
  "ex_s2 = (snd (processPayment ex_admin ex_toStr 2000 ex_pay_req ex_s1))\<lparr> clock := 2000 \<rparr>"

definition ex_s3 :: server where
  "ex_s3 = (fire 7000 0 ex_s2)\<lparr> clock := 7000 \<rparr>"

definition ex_s4 :: server where
  "ex_s4 = ex_s3\<lparr> store := snd (recordPlay ex_user ex_newId2 8000 True True
                       (ex_req (Some ''commercial'')) (store ex_s3)), clock := 8000 \<rparr>"

definition ex_s5 :: server where
  "ex_s5 = (snd (processPayment ex_admin ex_toStr 9000 ex_pay_req2 ex_s4))\<lparr> clock := 9000 \<rparr>"

definition ex_tx1 :: transaction where
  "ex_tx1 = initiated ex_admin ex_toStr 2000 ''bank_transfer'' ex_tx"

definition ex_tx2 :: transaction where
  "ex_tx2 = apply_update 7000 (completion_update ex_admin 7000) ex_tx1"

definition ex_tx3 :: transaction where
  "ex_tx3 = newTransaction ex_user ex_newId2 8000 (ex_req (Some ''commercial''))
              (incPlays 1000 (ex_music 50)) ''commercial'' 5000"

definition ex_tx4 :: transaction where
  "ex_tx4 = initiated ex_admin ex_toStr 9000 ''bank_transfer'' ex_tx3"

text \<open>
  A second request for the first transaction, whose \<open>find\<close> ran while the transaction
  was pending and whose write is delayed: until the first request has written
  (\<open>ex_r2\<close>), and until the timer of the first request has run (\<open>ex_r3\<close>, \<open>ex_r4\<close>).
\<close>

definition ex_h :: handler where
  "ex_h = \<lparr> h_ids = [ex_newId], h_found = [ex_tx], h_pm = ''bank_transfer'',
            h_admin = ex_admin \<rparr>"

definition ex_r1 :: server where
  "ex_r1 = ex_s1\<lparr> awaiting := awaiting ex_s1 @ [ex_h] \<rparr>"

definition ex_r2 :: server where
  "ex_r2 = (snd (processPayment ex_admin ex_toStr 2000 ex_pay_req ex_r1))\<lparr> clock := 2000 \<rparr>"

definition ex_r3 :: server where
  "ex_r3 = (fire 7000 0 ex_r2)\<lparr> clock := 7000 \<rparr>"

definition ex_tx5 :: transaction where
  "ex_tx5 = apply_update 8000 (initiate_update ex_admin ex_toStr 8000 ''bank_transfer'' ex_tx)
              ex_tx2"

definition ex_r4 :: server where
  "ex_r4 = (resume ex_toStr 8000 0 ex_r3)\<lparr> clock := 8000 \<rparr>"

section \<open>Properties\<close>

subsection \<open>Rounding to a double\<close>

text \<open>
  \<open>ilog2\<close> finds the binade of a positive rational, and rounding is monotone on the
  positive numbers and never turns a number that is not positive into a positive one.
\<close>

lemma pow2_powi: "pow2 e = 2 powi e"
proof (cases "0 \<le> e")
  case True
  then show ?thesis by (simp add: pow2_def power_int_def)
next
  case False
  have "(1::rat) / 2 ^ nat (- e) = inverse 2 ^ nat (- e)"
    by (simp add: inverse_eq_divide power_one_over)
  with False show ?thesis by (simp only: pow2_def power_int_def if_False)
qed

lemma pow2_pos [simp]: "0 < pow2 e"
  by (simp add: pow2_powi)

lemma pow2_nonneg [simp]: "0 \<le> pow2 e"
  using pow2_pos [of e] by (rule less_imp_le)

lemma pow2_add: "pow2 (a + b) = pow2 a * pow2 b"
  by (simp add: pow2_powi power_int_add)

lemma pow2_diff: "pow2 (a - b) = pow2 a / pow2 b"
  unfolding pow2_powi by (rule power_int_diff) simp

lemma pow2_mono: "a \<le> b \<Longrightarrow> pow2 a \<le> pow2 b"
  by (simp add: pow2_powi power_int_increasing)

lemma pow2_less_cancel: "pow2 a < pow2 b \<Longrightarrow> a < b"
  using pow2_mono [of b a] by (cases "a < b") auto

lemma bitlen_rat_bounds:
  assumes "0 < n"
  shows "pow2 (bitlen n - 1) \<le> of_int n" and "of_int n < pow2 (bitlen n)"
proof -
  from bitlen_bounds [OF assms]
  have lo: "2 ^ nat (bitlen n - 1) \<le> n" and hi: "n < 2 ^ nat (bitlen n)" by auto
  have b1: "1 \<le> bitlen n" using assms by (auto simp: bitlen_alt_def)
  have "(of_int (2 ^ nat (bitlen n - 1)) :: rat) \<le> of_int n"
    using lo by (simp only: of_int_le_iff)
  then show "pow2 (bitlen n - 1) \<le> of_int n"
    using b1 by (simp add: pow2_def)
  have "(of_int n :: rat) < of_int (2 ^ nat (bitlen n))"
    using hi by (simp only: of_int_less_iff)
  then show "of_int n < pow2 (bitlen n)"
    using b1 by (simp add: pow2_def)
qed

lemma ilog2_bounds:
  assumes "0 < x"
  shows "pow2 (ilog2 x) \<le> x" and "x < pow2 (ilog2 x + 1)"
proof -
  obtain p q where pq: "quotient_of x = (p, q)" by (cases "quotient_of x")
  have q: "0 < q" using pq by (rule quotient_of_denom_pos)
  have x: "x = of_int p / of_int q" using pq by (rule quotient_of_div)
  have p: "0 < p"
    using assms q unfolding x by (simp add: zero_less_divide_iff)
  let ?d = "bitlen p - bitlen q"
  note bp = bitlen_rat_bounds [OF p] and bq = bitlen_rat_bounds [OF q]
  have up: "x < pow2 (?d + 1)"
  proof -
    have "of_int p / of_int q < pow2 (bitlen p) / (pow2 (bitlen q - 1) :: rat)"
      using p q bp bq by (intro frac_less) simp_all
    also have "\<dots> = pow2 (bitlen p - (bitlen q - 1))"
      by (simp only: pow2_diff)
    also have "bitlen p - (bitlen q - 1) = ?d + 1" by simp
    finally show ?thesis unfolding x .
  qed
  have lo: "pow2 (?d - 1) < x"
  proof -
    have "pow2 (bitlen p - 1) / pow2 (bitlen q) < (of_int p / of_int q :: rat)"
      using p q bp bq by (intro frac_less2) simp_all
    moreover have "pow2 (bitlen p - 1) / pow2 (bitlen q) = pow2 (bitlen p - 1 - bitlen q)"
      by (simp only: pow2_diff)
    moreover have "bitlen p - 1 - bitlen q = ?d - 1" by simp
    ultimately show ?thesis unfolding x by simp
  qed
  show "pow2 (ilog2 x) \<le> x"
    using lo by (simp add: ilog2_def pq Let_def)
  show "x < pow2 (ilog2 x + 1)"
    using up by (auto simp: ilog2_def pq Let_def)
qed

lemma ilog2_mono:
  assumes "0 < x" and "x \<le> y"
  shows "ilog2 x \<le> ilog2 y"
proof -
  have "pow2 (ilog2 x) \<le> x" using assms(1) by (rule ilog2_bounds)
  also have "x \<le> y" by fact
  also have "y < pow2 (ilog2 y + 1)" using assms by (intro ilog2_bounds) simp
  finally show ?thesis using pow2_less_cancel by fastforce
qed


lemma rne_of_int [simp]: "rne (of_int n) = n"
  by (simp add: rne_def)

lemma rne_numeral [simp]: "rne (numeral k) = numeral k"
  using rne_of_int [of "numeral k"] by simp

lemma rne_zero [simp]: "rne 0 = 0"
  using rne_of_int [of 0] by simp

lemma rne_range: "\<lfloor>x\<rfloor> \<le> rne x" "rne x \<le> \<lfloor>x\<rfloor> + 1"
  by (simp_all add: rne_def Let_def)

lemma rne_mono:
  assumes "x \<le> y"
  shows "rne x \<le> rne y"
proof (cases "\<lfloor>x\<rfloor> = \<lfloor>y\<rfloor>")
  case True
  have "x - of_int \<lfloor>y\<rfloor> \<le> y - of_int \<lfloor>y\<rfloor>" using assms by simp
  then show ?thesis
    unfolding rne_def Let_def True by (simp split: if_splits)
next
  case False
  with floor_mono [OF assms] have "\<lfloor>x\<rfloor> + 1 \<le> \<lfloor>y\<rfloor>" by simp
  with rne_range(2) [of x] rne_range(1) [of y] show ?thesis by linarith
qed


lemma fl_pos:
  assumes "0 < x"
  shows "fl x = of_int (rne (x / pow2 (ilog2 x - 52))) * pow2 (ilog2 x - 52)"
  using assms by (simp add: fl_def Let_def)

lemma fl_lower:
  assumes "0 < x"
  shows "pow2 (ilog2 x) \<le> fl x"
proof -
  define c where "c = pow2 (ilog2 x - 52)"
  define r where "r = rne (x / c)"
  have c0: "0 < c" by (simp add: c_def)
  have fl: "fl x = of_int r * c"
    by (simp add: fl_pos [OF assms] r_def c_def)
  have k: "pow2 (ilog2 x) = 4503599627370496 * c"
  proof -
    have "pow2 (ilog2 x) = pow2 (52 + (ilog2 x - 52))" by simp
    also have "\<dots> = pow2 52 * c" unfolding c_def by (rule pow2_add)
    also have "pow2 52 = 4503599627370496" by (simp add: pow2_def)
    finally show ?thesis .
  qed
  have "4503599627370496 * c \<le> x"
    using ilog2_bounds(1) [OF assms] by (simp only: k)
  then have "4503599627370496 \<le> x / c"
    using c0 by (simp add: pos_le_divide_eq)
  from rne_mono [OF this] have "4503599627370496 \<le> r" by (simp add: r_def)
  then have "(of_int 4503599627370496 :: rat) \<le> of_int r" by (simp only: of_int_le_iff)
  then have "(4503599627370496 :: rat) \<le> of_int r" by simp
  then have "4503599627370496 * c \<le> of_int r * c"
    using less_imp_le [OF c0] by (rule mult_right_mono)
  then show ?thesis by (simp only: k fl)
qed

lemma fl_upper:
  assumes "0 < x"
  shows "fl x \<le> pow2 (ilog2 x + 1)"
proof -
  define c where "c = pow2 (ilog2 x - 52)"
  define r where "r = rne (x / c)"
  have c0: "0 < c" by (simp add: c_def)
  have fl: "fl x = of_int r * c"
    by (simp add: fl_pos [OF assms] r_def c_def)
  have k: "pow2 (ilog2 x + 1) = 9007199254740992 * c"
  proof -
    have "ilog2 x + 1 = 53 + (ilog2 x - 52)" by simp
    then have "pow2 (ilog2 x + 1) = pow2 (53 + (ilog2 x - 52))" by (rule arg_cong)
    also have "\<dots> = pow2 53 * c" unfolding c_def by (rule pow2_add)
    also have "pow2 53 = 9007199254740992" by (simp add: pow2_def)
    finally show ?thesis .
  qed
  have "x \<le> 9007199254740992 * c"
    using less_imp_le [OF ilog2_bounds(2) [OF assms]] by (simp only: k)
  then have "x / c \<le> 9007199254740992"
    using c0 by (simp add: pos_divide_le_eq)
  from rne_mono [OF this] have "r \<le> 9007199254740992" by (simp add: r_def)
  then have "(of_int r :: rat) \<le> of_int 9007199254740992" by (simp only: of_int_le_iff)
  then have "(of_int r :: rat) \<le> 9007199254740992" by simp
  then have "of_int r * c \<le> 9007199254740992 * c"
    using less_imp_le [OF c0] by (rule mult_right_mono)
  then show ?thesis by (simp only: k fl)
qed

lemma fl_mono_pos:
  assumes "0 < x" and "x \<le> y"
  shows "fl x \<le> fl y"
proof -
  have y: "0 < y" using assms by simp
  have le: "ilog2 x \<le> ilog2 y" using assms by (rule ilog2_mono)
  show ?thesis
  proof (cases "ilog2 x = ilog2 y")
    case True
    have "x / pow2 (ilog2 y - 52) \<le> y / pow2 (ilog2 y - 52)"
      using assms(2) by (rule divide_right_mono) (rule pow2_nonneg)
    from rne_mono [OF this]
    have "(of_int (rne (x / pow2 (ilog2 y - 52))) :: rat) \<le> of_int (rne (y / pow2 (ilog2 y - 52)))"
      by (simp only: of_int_le_iff)
    then show ?thesis
      by (simp add: fl_pos [OF assms(1)] fl_pos [OF y] True mult_right_mono)
  next
    case False
    with le have "ilog2 x + 1 \<le> ilog2 y" by simp
    then have "pow2 (ilog2 x + 1) \<le> pow2 (ilog2 y)" by (rule pow2_mono)
    with fl_upper [OF assms(1)] fl_lower [OF y] show ?thesis by linarith
  qed
qed

lemma fl_nonpos:
  assumes "x \<le> 0"
  shows "fl x \<le> 0"
proof (cases "x = 0")
  case True
  then show ?thesis by (simp add: fl_def)
next
  case False
  let ?e = "ilog2 \<bar>x\<bar> - 52"
  have "x / pow2 ?e \<le> 0 / pow2 ?e"
    using assms by (rule divide_right_mono) (rule pow2_nonneg)
  then have "x / pow2 ?e \<le> of_int 0" by simp
  from rne_mono [OF this] have "rne (x / pow2 ?e) \<le> 0" by simp
  then have "(of_int (rne (x / pow2 ?e)) :: rat) \<le> 0" by simp
  then have "of_int (rne (x / pow2 ?e)) * pow2 ?e \<le> 0"
    by (simp add: mult_le_0_iff)
  with False show ?thesis by (simp add: fl_def Let_def)
qed

lemma fl_le:
  assumes "x \<le> c" and "0 < c"
  shows "fl x \<le> fl c"
proof (cases "0 < x")
  case True
  then show ?thesis using assms(1) by (rule fl_mono_pos)
next
  case False
  then have "fl x \<le> 0" by (intro fl_nonpos) simp
  moreover have "0 \<le> fl c"
    using fl_lower [OF assms(2)] pow2_pos [of "ilog2 c"] by linarith
  ultimately show ?thesis by linarith
qed

subsection \<open>Royalty calculation and POST /play\<close>

lemma fl_consts:
  "fmul 5000 (lit (7 / 10)) = 3500"
  "fmul 5000 (lit (1 / 20)) = 250"
  "fmul 5000 (lit (1 / 10)) = 500"
  "fmul (fmul 5000 (fdiv 50 100)) (lit (3 / 20)) = 375"
  "fmul (fmul 5000 (fdiv 100 100)) (lit (3 / 20)) = 750"
  by code_simp+





lemma newTransaction_sel:
  "tx_id (newTransaction u newId now req m pt rate) = newId"
  "calculatedAmount (royaltyInfo (newTransaction u newId now req m pt rate)) = rate"
  "baseRate (royaltyInfo (newTransaction u newId now req m pt rate)) = rate"
  "playType (playInfo (newTransaction u newId now req m pt rate)) = pt"
  "lmkCompliance (newTransaction u newId now req m pt rate)
     = \<lparr> reportingStatus = ''pending'', reportedToLMK = None \<rparr>"
  "status (paymentInfo (newTransaction u newId now req m pt rate)) = ''pending''"
  "auditTrail (verification (newTransaction u newId now req m pt rate)) = []"
  by (simp_all add: newTransaction_def Let_def)

lemma ex_play:
  "recordPlay ex_user ex_newId 1000 True True (ex_req (Some ''commercial'')) ex_db
     = (Inr ex_resp, ex_db')"
proof -
  have a: "isAvailableForBusiness (ex_music 50) ''cafe''"
    by (simp add: isAvailableForBusiness_def ex_music_def)
  have c: "calculateRoyalty (ex_music 50) (Some ''commercial'') = Some 5000"
    by (simp add: calculateRoyalty_def ex_music_def)
  have i: "music_id (ex_music 50) = ''64b000000000000000000001''"
    by (simp add: ex_music_def)
  show ?thesis
    by (simp add: recordPlay_def ex_db_def ex_db'_def ex_resp_def ex_tx_def ex_req_def
        ex_user_def a c i playTypes_def Let_def newTransaction_sel)
qed


text \<open>
  Claim C5. A work with synchronization rate 5000, two publishers of share 50 and no
  composer or lyricist, played as \<open>commercial\<close>: the amount is 5000, the artist gets 3500,
  each publisher 375, the LMK fee is 250, the platform fee 500, and the amounts add up
  to 5000.
\<close>

theorem conserved_distribution:
  assumes "synchronization (royaltyRate (lmkInfo m)) = Some 5000"
    and "publishers (lmkInfo m) = Some [p1, p2]"
    and "sharePercentage p1 = 50" and "sharePercentage p2 = 50"
    and "composers (lmkInfo m) = None \<or> composers (lmkInfo m) = Some []"
    and "lyricists (lmkInfo m) = None \<or> lyricists (lmkInfo m) = Some []"
  shows "\<exists>amt. calculateRoyalty m (Some ''commercial'') = Some amt \<and> amt = 5000
     \<and> amount (dist_artist (computeDistribution m amt)) = 3500
     \<and> map payee_amount (dist_publishers (computeDistribution m amt)) = [375, 375]
     \<and> dist_composers (computeDistribution m amt) = []
     \<and> dist_lyricists (computeDistribution m amt) = []
     \<and> amount (lmkFee (computeDistribution m amt)) = 250
     \<and> amount (platformFee (computeDistribution m amt)) = 500
     \<and> amount (dist_artist (computeDistribution m amt))
       + sum_list (map payee_amount (dist_publishers (computeDistribution m amt)))
       + sum_list (map payee_amount (dist_composers (computeDistribution m amt)))
       + sum_list (map payee_amount (dist_lyricists (computeDistribution m amt)))
       + amount (lmkFee (computeDistribution m amt))
       + amount (platformFee (computeDistribution m amt)) = amt"
proof -
  have c: "calculateRoyalty m (Some ''commercial'') = Some 5000"
    using assms(1) by (simp add: calculateRoyalty_def)
  show ?thesis
    using assms(2-6) c
    by (auto simp: computeDistribution_def payees_def payee_def fl_consts)
qed


theorem conserved_distribution_witness:
  "amount (dist_artist (computeDistribution (ex_music 50) 5000)) = 3500
   \<and> map payee_amount (dist_publishers (computeDistribution (ex_music 50) 5000)) = [375, 375]
   \<and> amount (lmkFee (computeDistribution (ex_music 50) 5000)) = 250
   \<and> amount (platformFee (computeDistribution (ex_music 50) 5000)) = 500"
  using conserved_distribution [of "ex_music 50" "ex_holder 50" "ex_holder 50"]
  by (simp add: ex_music_def ex_holder_def)

text \<open>
  Claim C6. The same work with two publishers of share 100: each publisher gets 750,
  1500 together, and the amounts add up to 5750, more than the 5000 of the play.
\<close>

theorem overallocated_distribution:
  assumes "synchronization (royaltyRate (lmkInfo m)) = Some 5000"
    and "publishers (lmkInfo m) = Some [p1, p2]"
    and "sharePercentage p1 = 100" and "sharePercentage p2 = 100"
    and "composers (lmkInfo m) = None \<or> composers (lmkInfo m) = Some []"
    and "lyricists (lmkInfo m) = None \<or> lyricists (lmkInfo m) = Some []"
  shows "\<exists>amt. calculateRoyalty m (Some ''commercial'') = Some amt \<and> amt = 5000
     \<and> amount (dist_artist (computeDistribution m amt)) = 3500
     \<and> map payee_amount (dist_publishers (computeDistribution m amt)) = [750, 750]
     \<and> sum_list (map payee_amount (dist_publishers (computeDistribution m amt))) = 1500
     \<and> amount (lmkFee (computeDistribution m amt)) = 250
     \<and> amount (platformFee (computeDistribution m amt)) = 500
     \<and> amount (dist_artist (computeDistribution m amt))
       + sum_list (map payee_amount (dist_publishers (computeDistribution m amt)))
       + sum_list (map payee_amount (dist_composers (computeDistribution m amt)))
       + sum_list (map payee_amount (dist_lyricists (computeDistribution m amt)))
       + amount (lmkFee (computeDistribution m amt))
       + amount (platformFee (computeDistribution m amt)) = 5750
     \<and> amt < 5750"
proof -
  have c: "calculateRoyalty m (Some ''commercial'') = Some 5000"
    using assms(1) by (simp add: calculateRoyalty_def)
  show ?thesis
    using assms(2-6) c
    by (auto simp: computeDistribution_def payees_def payee_def fl_consts)
qed

theorem overallocated_distribution_witness:
  "map payee_amount (dist_publishers (computeDistribution (ex_music 100) 5000)) = [750, 750]
   \<and> amount (dist_artist (computeDistribution (ex_music 100) 5000))
       + sum_list (map payee_amount (dist_publishers (computeDistribution (ex_music 100) 5000)))
       + sum_list (map payee_amount (dist_composers (computeDistribution (ex_music 100) 5000)))
       + sum_list (map payee_amount (dist_lyricists (computeDistribution (ex_music 100) 5000)))
       + amount (lmkFee (computeDistribution (ex_music 100) 5000))
       + amount (platformFee (computeDistribution (ex_music 100) 5000)) = 5750"
  using overallocated_distribution [of "ex_music 100" "ex_holder 100" "ex_holder 100"]
  by (simp add: ex_music_def ex_holder_def)

text \<open>
  Claim C8. When the database refuses the \<open>save\<close> of the transaction, \<open>POST /play\<close> answers
  with an error and leaves the database as it was; whenever it leaves the transactions
  as they were it leaves the works as they were; and it changes a work only when the
  save succeeded and the transaction was added.
\<close>

theorem recordPlay_atomic:
  "(\<not> saveOk \<longrightarrow> (\<exists>e. recordPlay u newId now saveOk updOk req d = (Inl e, d)))
   \<and> (transactions (snd (recordPlay u newId now saveOk updOk req d)) = transactions d
        \<longrightarrow> snd (recordPlay u newId now saveOk updOk req d) = d)
   \<and> (musics (snd (recordPlay u newId now saveOk updOk req d)) \<noteq> musics d
        \<longrightarrow> saveOk \<and> (\<exists>t. transactions (snd (recordPlay u newId now saveOk updOk req d))
                              = transactions d @ [t]))"
  by (auto simp: recordPlay_def Let_def split: option.splits if_splits)

lemma ex_play_fail:
  "recordPlay ex_user ex_newId 1000 False True (ex_req (Some ''commercial'')) ex_db
     = (Inl PLAY_RECORD_ERROR, ex_db)"
proof -
  have a: "isAvailableForBusiness (ex_music 50) ''cafe''"
    by (simp add: isAvailableForBusiness_def ex_music_def)
  have c: "calculateRoyalty (ex_music 50) (Some ''commercial'') = Some 5000"
    by (simp add: calculateRoyalty_def ex_music_def)
  have i: "music_id (ex_music 50) = ''64b000000000000000000001''"
    by (simp add: ex_music_def)
  show ?thesis
    by (simp add: recordPlay_def ex_db_def ex_req_def ex_user_def a c i playTypes_def Let_def)
qed

theorem recordPlay_atomic_witness:
  "\<not> False
   \<and> recordPlay ex_user ex_newId 1000 False True (ex_req (Some ''commercial'')) ex_db
       = (Inl PLAY_RECORD_ERROR, ex_db)
   \<and> transactions (snd (recordPlay ex_user ex_newId 1000 False True
        (ex_req (Some ''commercial'')) ex_db)) = transactions ex_db
   \<and> musics (snd (recordPlay ex_user ex_newId 1000 True True
        (ex_req (Some ''commercial'')) ex_db)) \<noteq> musics ex_db
   \<and> (\<exists>t. transactions (snd (recordPlay ex_user ex_newId 1000 True True
        (ex_req (Some ''commercial'')) ex_db)) = transactions ex_db @ [t])"
proof -
  have "musics ex_db' \<noteq> musics ex_db"
    by (simp add: ex_db'_def ex_db_def incPlays_def ex_music_def)
  then have ne: "musics (snd (recordPlay ex_user ex_newId 1000 True True
        (ex_req (Some ''commercial'')) ex_db)) \<noteq> musics ex_db"
    by (simp add: ex_play)
  from recordPlay_atomic [of False ex_user ex_newId 1000 True "ex_req (Some ''commercial'')" ex_db]
    recordPlay_atomic [of True ex_user ex_newId 1000 True "ex_req (Some ''commercial'')" ex_db] ne
  show ?thesis
    by (simp add: ex_play_fail)
qed

subsection \<open>POST /process-payment and the completion\<close>

lemma initiate_effect:
  "apply_update now (initiate_update admin toStr now pm t') t =
     t\<lparr> paymentInfo := (paymentInfo t)\<lparr> status := ''processing'', paymentDate := Some now,
            paymentMethod := pm,
            transactionId := Some (''PAY_'' @ toStr (of_int now) @ ''_'' @ slice_last6 (tx_id t')) \<rparr>,
        verification := (verification t)\<lparr> auditTrail :=
            [\<lparr> action = None, performedBy = None, timestamp = now, details = None \<rparr>] \<rparr> \<rparr>"
  by (simp add: apply_update_def initiate_update_def apply_op_def set_path_def cast_trail_def
      cast_entry_def cast_string_def cast_oid_def cast_date_def)

lemma completion_effect:
  "apply_update now (completion_update admin now) t =
     t\<lparr> paymentInfo := (paymentInfo t)\<lparr> status := ''completed'' \<rparr>,
        lmkCompliance := (lmkCompliance t)\<lparr> reportingStatus := ''reported'',
            reportedToLMK := Some now \<rparr>,
        verification := (verification t)\<lparr> auditTrail := auditTrail (verification t) @
            [\<lparr> action = Some ''payment_completed'', performedBy = Some admin, timestamp = now,
               details = Some ''Payment completed and reported to LMK'' \<rparr>] \<rparr> \<rparr>"
  by (simp add: apply_update_def completion_update_def apply_op_def set_path_def push_path_def
      cast_entry_def cast_string_def cast_oid_def cast_date_def)

lemma distinct_ids_Cons:
  "distinct (map tx_id (a # ts)) \<Longrightarrow> x \<in> set ts \<Longrightarrow> tx_id x \<noteq> tx_id a"
  by (metis distinct.simps(2) image_eqI list.simps(9) set_map)

lemma update_first_distinct:
  "distinct (map tx_id ts) \<Longrightarrow>
   update_first (\<lambda>x. tx_id x = i) f ts = map (\<lambda>x. if tx_id x = i then f x else x) ts"
proof (induction ts)
  case Nil
  then show ?case by simp
next
  case (Cons a ts)
  show ?case
  proof (cases "tx_id a = i")
    case True
    have "\<forall>x\<in>set ts. tx_id x \<noteq> i"
    proof
      fix x assume "x \<in> set ts"
      from distinct_ids_Cons [OF Cons.prems this] True show "tx_id x \<noteq> i" by simp
    qed
    then have "map (\<lambda>x. if tx_id x = i then f x else x) ts = ts"
      by (intro map_idI) simp
    with True show ?thesis by simp
  next
    case False
    with Cons show ?thesis by simp
  qed
qed

lemma tx_id_apply_update [simp]: "tx_id (apply_update now upd t) = tx_id t"
proof -
  have sp: "\<And>kv t. tx_id (set_path now kv t) = tx_id t"
    by (auto simp: set_path_def split: json.splits prod.splits)
  have pp: "\<And>kv t. tx_id (push_path now kv t) = tx_id t"
    by (auto simp: push_path_def split: prod.splits)
  have f1: "\<And>kvs t. tx_id (fold (set_path now) kvs t) = tx_id t"
    subgoal for kvs t by (induction kvs arbitrary: t) (simp_all add: sp)
    done
  have f2: "\<And>kvs t. tx_id (fold (push_path now) kvs t) = tx_id t"
    subgoal for kvs t by (induction kvs arbitrary: t) (simp_all add: pp)
    done
  have ao: "\<And>kv t. tx_id (apply_op now kv t) = tx_id t"
    by (auto simp: apply_op_def sp f1 f2 split: json.splits prod.splits)
  show ?thesis
    unfolding apply_update_def by (induction upd arbitrary: t) (simp_all add: ao)
qed

lemma bulkWrite_distinct:
  assumes "distinct (map tx_id ts)" and "distinct (map tx_id fs)"
  shows "bulkWrite now (map (\<lambda>t. (tx_id t, upd t)) fs) ts =
     map (\<lambda>x. case find (\<lambda>t. tx_id t = tx_id x) fs of
                 Some t \<Rightarrow> apply_update now (upd t) x | None \<Rightarrow> x) ts"
  using assms
proof (induction fs arbitrary: ts)
  case Nil
  then show ?case by simp
next
  case (Cons a fs)
  let ?ts1 = "map (\<lambda>x. if tx_id x = tx_id a then apply_update now (upd a) x else x) ts"
  have d1: "distinct (map tx_id ?ts1)"
  proof -
    have eq: "map tx_id ?ts1 = map tx_id ts" by (induction ts) simp_all
    show ?thesis unfolding eq using Cons.prems(1) .
  qed
  have nf: "find (\<lambda>t. tx_id t = tx_id a) fs = None"
    using distinct_ids_Cons [OF Cons.prems(2)] by (auto simp: find_None_iff)
  have "bulkWrite now (map (\<lambda>t. (tx_id t, upd t)) (a # fs)) ts
        = bulkWrite now (map (\<lambda>t. (tx_id t, upd t)) fs) ?ts1"
    using Cons.prems(1) by (simp add: update_first_distinct)
  also have "\<dots> = map (\<lambda>x. case find (\<lambda>t. tx_id t = tx_id x) fs of
                 Some t \<Rightarrow> apply_update now (upd t) x | None \<Rightarrow> x) ?ts1"
    using Cons.IH [OF d1] Cons.prems(2) by simp
  also have "\<dots> = map (\<lambda>x. case find (\<lambda>t. tx_id t = tx_id x) (a # fs) of
                 Some t \<Rightarrow> apply_update now (upd t) x | None \<Rightarrow> x) ts"
    by (auto simp: nf)
  finally show ?case .
qed

lemma find_filter_distinct:
  assumes "distinct (map tx_id ts)" and "x \<in> set ts"
  shows "find (\<lambda>t. tx_id t = tx_id x) (filter P ts) = (if P x then Some x else None)"
  using assms
proof (induction ts)
  case Nil
  then show ?case by simp
next
  case (Cons a ts)
  show ?case
  proof (cases "x = a")
    case True
    then have "find (\<lambda>t. tx_id t = tx_id x) (filter P ts) = None"
      using distinct_ids_Cons [OF Cons.prems(1)] by (auto simp: find_None_iff)
    with True show ?thesis by simp
  next
    case False
    then have "x \<in> set ts" "tx_id a \<noteq> tx_id x" using Cons.prems by auto
    with Cons show ?thesis by simp
  qed
qed

lemma initiated_status:
  "status (paymentInfo (initiated admin toStr now pm t)) = ''processing''"
  "lmkCompliance (initiated admin toStr now pm t) = lmkCompliance t"
  "royaltyInfo (initiated admin toStr now pm t) = royaltyInfo t"
  "tx_id (initiated admin toStr now pm t) = tx_id t"
  by (simp_all add: initiated_def initiate_effect)

lemma payment_loop_eq:
  "payment_loop admin toStr now pm found (us, tot) =
     (us @ map (\<lambda>t. (tx_id t, initiate_update admin toStr now pm t)) found,
      foldl xadd tot (map (\<lambda>t. calculatedAmount (royaltyInfo t)) found))"
  by (induction found arbitrary: us tot) simp_all

lemma processPayment_write_eq:
  "processPayment_write toStr now h s =
     (\<lparr> processedTransactions = length (h_found h),
        totalAmount = foldl xadd (Finite 0) (map (\<lambda>t. calculatedAmount (royaltyInfo t)) (h_found h)),
        resp_currency' = ''IDR'' \<rparr>,
      s\<lparr> store := (store s)
           \<lparr>transactions := bulkWrite now
               (map (\<lambda>t. (tx_id t, initiate_update (h_admin h) toStr now (h_pm h) t)) (h_found h))
               (transactions (store s))\<rparr>,
         timers := timers s @
           [\<lparr> timer_ids = h_ids h, timer_user = h_admin h, due = now + 5000 \<rparr>] \<rparr>)"
  by (simp add: processPayment_write_def payment_loop_eq)

lemma processPayment_find_eq:
  assumes "req_transactionIds req = Some raw" and "castObjectIds raw = Some ids"
  shows "processPayment_find admin req d =
     (let found = filter (\<lambda>t. tx_id t \<in> set ids \<and> status (paymentInfo t) = ''pending'')
                    (transactions d)
      in if found = [] then Inl NO_PENDING_TRANSACTIONS
         else Inr \<lparr> h_ids = raw, h_found = found,
                    h_pm = (case req_paymentMethod req of None \<Rightarrow> ''bank_transfer'' | Some m \<Rightarrow> m),
                    h_admin = admin \<rparr>)"
  using assms by (simp add: processPayment_find_def Let_def)

lemma processPayment_store:
  assumes "distinct (map tx_id (transactions (store s)))"
    and "req_transactionIds req = Some raw" and "castObjectIds raw = Some ids"
  shows "transactions (store (snd (processPayment admin toStr now req s))) =
     map (\<lambda>t. if tx_id t \<in> set ids \<and> status (paymentInfo t) = ''pending''
               then initiated admin toStr now
                      (case req_paymentMethod req of None \<Rightarrow> ''bank_transfer'' | Some m \<Rightarrow> m) t
               else t) (transactions (store s))"
proof -
  let ?P = "\<lambda>t. tx_id t \<in> set ids \<and> status (paymentInfo t) = ''pending''"
  let ?ts = "transactions (store s)"
  let ?pm = "case req_paymentMethod req of None \<Rightarrow> ''bank_transfer'' | Some m \<Rightarrow> m"
  show ?thesis
  proof (cases "filter ?P ?ts = []")
    case True
    then have "\<forall>t\<in>set ?ts. \<not> ?P t" by (simp add: filter_empty_conv)
    then have "map (\<lambda>t. if ?P t then initiated admin toStr now ?pm t else t) ?ts = ?ts"
      by (intro map_idI) auto
    with True show ?thesis
      by (simp add: processPayment_def processPayment_find_eq [OF assms(2,3)])
  next
    case False
    have df: "distinct (map tx_id (filter ?P ?ts))"
      using assms(1) by (simp add: distinct_map_filter)
    have "bulkWrite now (map (\<lambda>t. (tx_id t, initiate_update admin toStr now ?pm t)) (filter ?P ?ts)) ?ts
          = map (\<lambda>t. if ?P t then initiated admin toStr now ?pm t else t) ?ts"
      unfolding bulkWrite_distinct [OF assms(1) df]
      by (rule map_cong) (simp_all add: find_filter_distinct [OF assms(1)] initiated_def)
    with False show ?thesis
      by (simp add: processPayment_def processPayment_find_eq [OF assms(2,3)]
          processPayment_write_eq Let_def)
  qed
qed

lemma processPayment_timers:
  assumes "req_transactionIds req = Some raw" and "castObjectIds raw = Some ids"
  shows "timers (snd (processPayment admin toStr now req s)) =
     (if filter (\<lambda>t. tx_id t \<in> set ids \<and> status (paymentInfo t) = ''pending'')
           (transactions (store s)) = [] then timers s
      else timers s @ [\<lparr> timer_ids = raw, timer_user = admin, due = now + 5000 \<rparr>])"
  by (simp add: processPayment_def processPayment_find_eq [OF assms] processPayment_write_eq Let_def)

lemma processPayment_result:
  assumes "req_transactionIds req = Some raw" and "castObjectIds raw = Some ids"
  shows "fst (processPayment admin toStr now req s) =
     (let found = filter (\<lambda>t. tx_id t \<in> set ids \<and> status (paymentInfo t) = ''pending'')
                    (transactions (store s))
      in if found = [] then Inl NO_PENDING_TRANSACTIONS
         else Inr \<lparr> processedTransactions = length found,
                    totalAmount = foldl xadd (Finite 0) (map (\<lambda>t. calculatedAmount (royaltyInfo t)) found),
                    resp_currency' = ''IDR'' \<rparr>)"
  by (simp add: processPayment_def processPayment_find_eq [OF assms] processPayment_write_eq Let_def)

lemma processPayment_awaiting [simp]:
  "awaiting (snd (processPayment admin toStr now req s)) = awaiting s"
  by (simp add: processPayment_def processPayment_write_eq split: sum.splits)

lemma processPayment_cast_error:
  assumes "req_transactionIds req = Some raw" and "castObjectIds raw = None"
  shows "processPayment admin toStr now req s = (Inl PAYMENT_PROCESS_ERROR, s)"
  using assms by (simp add: processPayment_def processPayment_find_def)


lemma processPayment_none:
  assumes "req_transactionIds req = Some raw" and "castObjectIds raw = Some ids"
    and "filter (\<lambda>t. tx_id t \<in> set ids \<and> status (paymentInfo t) = ''pending'')
           (transactions (store s)) = []"
  shows "snd (processPayment admin toStr now req s) = s"
  using assms(3) by (simp add: processPayment_def processPayment_find_eq [OF assms(1,2)] Let_def)

lemma pending_count:
  assumes "distinct (map tx_id ts)"
  shows "length (filter (\<lambda>t. tx_id t \<in> set ids \<and> status (paymentInfo t) = ''pending'') ts)
       = card {i \<in> set ids. \<exists>t\<in>set ts. tx_id t = i \<and> status (paymentInfo t) = ''pending''}"
proof -
  let ?P = "\<lambda>t. tx_id t \<in> set ids \<and> status (paymentInfo t) = ''pending''"
  have d: "distinct (map tx_id (filter ?P ts))"
    using assms by (simp add: distinct_map_filter)
  have "length (filter ?P ts) = length (map tx_id (filter ?P ts))" by simp
  also have "\<dots> = card (set (map tx_id (filter ?P ts)))"
    using d by (simp only: distinct_card)
  also have "set (map tx_id (filter ?P ts))
           = {i \<in> set ids. \<exists>t\<in>set ts. tx_id t = i \<and> status (paymentInfo t) = ''pending''}"
    by auto
  finally show ?thesis .
qed

text \<open>
  When nothing runs between the \<open>find\<close> and the write of a request whose ids all cast,
  and the ids of the store are unique: a transaction that is not named or not pending
  is left as it is, the named pending ones become \<open>processing\<close>, the count is the number
  of named ids of pending transactions and the total is the running double-precision
  sum of their amounts.
\<close>

lemma uninterrupted_initiation:
  assumes "distinct (map tx_id (transactions (store s)))"
    and "req_transactionIds req = Some raw" and "castObjectIds raw = Some ids"
  shows "length (transactions (store (snd (processPayment admin toStr now req s))))
           = length (transactions (store s))
     \<and> (\<forall>k < length (transactions (store s)).
          (if tx_id (transactions (store s) ! k) \<in> set ids
              \<and> status (paymentInfo (transactions (store s) ! k)) = ''pending''
           then status (paymentInfo (transactions (store (snd (processPayment admin toStr now req s))) ! k))
                  = ''processing''
           else transactions (store (snd (processPayment admin toStr now req s))) ! k
                  = transactions (store s) ! k))
     \<and> (case fst (processPayment admin toStr now req s) of
          Inr resp \<Rightarrow>
            processedTransactions resp
              = card {i \<in> set ids. \<exists>t\<in>set (transactions (store s)).
                        tx_id t = i \<and> status (paymentInfo t) = ''pending''}
            \<and> totalAmount resp
              = foldl xadd (Finite 0) (map (\<lambda>t. calculatedAmount (royaltyInfo t))
                  (filter (\<lambda>t. tx_id t \<in> set ids \<and> status (paymentInfo t) = ''pending'')
                     (transactions (store s))))
        | Inl e \<Rightarrow>
            e = NO_PENDING_TRANSACTIONS
            \<and> {i \<in> set ids. \<exists>t\<in>set (transactions (store s)).
                        tx_id t = i \<and> status (paymentInfo t) = ''pending''} = {}
            \<and> snd (processPayment admin toStr now req s) = s)"
proof (intro conjI)
  show "length (transactions (store (snd (processPayment admin toStr now req s))))
           = length (transactions (store s))"
    by (simp add: processPayment_store [OF assms])
  show "\<forall>k < length (transactions (store s)).
          (if tx_id (transactions (store s) ! k) \<in> set ids
              \<and> status (paymentInfo (transactions (store s) ! k)) = ''pending''
           then status (paymentInfo (transactions (store (snd (processPayment admin toStr now req s))) ! k))
                  = ''processing''
           else transactions (store (snd (processPayment admin toStr now req s))) ! k
                  = transactions (store s) ! k)"
    by (simp add: processPayment_store [OF assms] initiated_status)
  let ?P = "\<lambda>t. tx_id t \<in> set ids \<and> status (paymentInfo t) = ''pending''"
  show "case fst (processPayment admin toStr now req s) of
          Inr resp \<Rightarrow>
            processedTransactions resp
              = card {i \<in> set ids. \<exists>t\<in>set (transactions (store s)).
                        tx_id t = i \<and> status (paymentInfo t) = ''pending''}
            \<and> totalAmount resp
              = foldl xadd (Finite 0) (map (\<lambda>t. calculatedAmount (royaltyInfo t))
                  (filter (\<lambda>t. tx_id t \<in> set ids \<and> status (paymentInfo t) = ''pending'')
                     (transactions (store s))))
        | Inl e \<Rightarrow>
            e = NO_PENDING_TRANSACTIONS
            \<and> {i \<in> set ids. \<exists>t\<in>set (transactions (store s)).
                        tx_id t = i \<and> status (paymentInfo t) = ''pending''} = {}
            \<and> snd (processPayment admin toStr now req s) = s"
  proof (cases "filter ?P (transactions (store s)) = []")
    case True
    then have "{i \<in> set ids. \<exists>t\<in>set (transactions (store s)).
                        tx_id t = i \<and> status (paymentInfo t) = ''pending''} = {}"
      by (auto simp: filter_empty_conv)
    with True show ?thesis
      by (simp add: processPayment_result [OF assms(2,3)] processPayment_none [OF assms(2,3) True])
  next
    case False
    then show ?thesis
      by (simp add: processPayment_result [OF assms(2,3)] pending_count [OF assms(1)])
  qed
qed

lemma recordPlay_transactions:
  "transactions (snd (recordPlay u newId now saveOk updOk req d)) = transactions d
   \<or> (\<exists>m pt rate. transactions (snd (recordPlay u newId now saveOk updOk req d))
         = transactions d @ [newTransaction u newId now req m pt rate])"
  by (auto simp: recordPlay_def Let_def split: option.splits)

lemma in_step_new: "in_step (newTransaction u newId now req m pt rate)"
  by (simp add: in_step_def newTransaction_sel)

lemma in_step_initiate:
  "in_step t \<Longrightarrow> in_step (apply_update now (initiate_update admin toStr now pm t') t)"
  by (auto simp: in_step_def initiate_effect)

lemma in_step_completed: "in_step (apply_update now (completion_update admin now) t)"
  by (simp add: in_step_def completion_effect)

lemma ball_map: "\<forall>t\<in>set ts. Q (f t) \<Longrightarrow> \<forall>t\<in>set (map f ts). Q t"
  by simp

lemma update_first_keeps:
  assumes "\<And>x. Q x \<Longrightarrow> Q (f x)" and "\<forall>x\<in>set ts. Q x"
  shows "\<forall>x\<in>set (update_first P f ts). Q x"
  using assms(2) by (induction ts) (auto intro: assms(1))

lemma bulkWrite_keeps:
  assumes "\<forall>x\<in>set ts. in_step x"
  shows "\<forall>x\<in>set (bulkWrite now
           (map (\<lambda>t. (tx_id t, initiate_update admin toStr now pm t)) fs) ts). in_step x"
  using assms
proof (induction fs arbitrary: ts)
  case Nil
  then show ?case by simp
next
  case (Cons a fs)
  have "\<forall>x\<in>set (update_first (\<lambda>t. tx_id t = tx_id a)
           (apply_update now (initiate_update admin toStr now pm a)) ts). in_step x"
    using Cons.prems by (intro update_first_keeps in_step_initiate)
  from Cons.IH [OF this] show ?case by simp
qed

lemma store_ok_play:
  assumes "store_ok s"
  shows "store_ok (s\<lparr> store := snd (recordPlay u newId now saveOk updOk req (store s)),
                      clock := now \<rparr>)"
  using recordPlay_transactions [of u newId now saveOk updOk req "store s"] assms
  by (auto simp: store_ok_def in_step_new)

lemma store_ok_write:
  assumes "store_ok s"
  shows "store_ok ((resume toStr now i s)\<lparr> clock := now \<rparr>)"
  using bulkWrite_keeps [of "transactions (store s)"] assms
  by (simp add: store_ok_def resume_def processPayment_write_eq)

lemma store_ok_fire:
  assumes "store_ok s"
  shows "store_ok ((fire now i s)\<lparr> clock := now \<rparr>)"
proof (cases "castObjectIds (timer_ids (timers s ! i))")
  case None
  then show ?thesis using assms by (simp add: store_ok_def fire_def completePayment_def)
next
  case (Some ids)
  let ?f = "\<lambda>t. if tx_id t \<in> set ids
                 then apply_update now (completion_update (timer_user (timers s ! i)) now) t else t"
  have ts: "transactions (store ((fire now i s)\<lparr> clock := now \<rparr>)) = map ?f (transactions (store s))"
    by (simp add: fire_def completePayment_def updateMany_def Some)
  have "\<forall>t\<in>set (transactions (store s)). in_step (?f t)"
    using assms by (auto simp: store_ok_def in_step_completed)
  then have "\<forall>t\<in>set (map ?f (transactions (store s))). in_step t"
    by (rule ball_map)
  then show ?thesis
    unfolding store_ok_def ts .
qed

lemma reachable_store_ok: "reachable s \<Longrightarrow> store_ok s"
proof (induction rule: reachable.induct)
  case (init ms t0)
  show ?case by (simp add: store_ok_def)
next
  case (idle s now)
  then show ?case by (simp add: store_ok_def)
next
  case (catalogue s ms)
  then show ?case by (simp add: store_ok_def)
next
  case (play s now newId u saveOk updOk req)
  then show ?case by (intro store_ok_play)
next
  case (pay_find s admin req h)
  then show ?case by (simp add: store_ok_def)
next
  case (pay_write s now i toStr)
  then show ?case by (intro store_ok_write)
next
  case (complete s now i)
  then show ?case by (intro store_ok_fire)
qed

lemma reachable_pay:
  assumes "reachable s" and "clock s \<le> now"
  shows "reachable ((snd (processPayment admin toStr now req s))\<lparr> clock := now \<rparr>)"
proof (cases "processPayment_find admin req (store s)")
  case (Inl e)
  then have "snd (processPayment admin toStr now req s) = s"
    by (simp add: processPayment_def)
  with reachable.idle [OF assms] show ?thesis by simp
next
  case (Inr h)
  let ?s1 = "s\<lparr> awaiting := awaiting s @ [h] \<rparr>"
  have r1: "reachable ?s1" using assms(1) Inr by (rule reachable.pay_find)
  have "reachable ((resume toStr now (length (awaiting s)) ?s1)\<lparr> clock := now \<rparr>)"
    by (rule reachable.pay_write [OF r1]) (simp_all add: assms(2))
  moreover have "(resume toStr now (length (awaiting s)) ?s1)\<lparr> clock := now \<rparr>
      = (snd (processPayment admin toStr now req s))\<lparr> clock := now \<rparr>"
    by (simp add: resume_def processPayment_def Inr processPayment_write_eq)
  ultimately show ?thesis by simp
qed

text \<open>
  Claim C10. In every reachable state \<open>getPendingLMKReports\<close> returns the empty list: the
  only update that sets the payment status to \<open>completed\<close> sets the reporting status to
  \<open>reported\<close> with it.
\<close>

theorem pending_reports_empty:
  assumes "reachable s"
  shows "getPendingLMKReports (store s) = []"
  using reachable_store_ok [OF assms]
  by (auto simp: getPendingLMKReports_def store_ok_def in_step_def filter_empty_conv)

text \<open>
  What does hold in every reachable state: a transaction whose report is out is
  \<open>completed\<close> or \<open>processing\<close>, never \<open>pending\<close>.
\<close>

lemma never_reported_while_pending:
  assumes "reachable s" and "t \<in> set (transactions (store s))"
    and "reportingStatus (lmkCompliance t) \<in> {''reported'', ''confirmed'', ''disputed''}"
  shows "status (paymentInfo t) = ''completed'' \<or> status (paymentInfo t) = ''processing''"
  using reachable_store_ok [OF assms(1)] assms(2,3)
  by (auto simp: store_ok_def in_step_def)


lemma ex_tx_sel:
  "tx_id ex_tx = ex_newId" "status (paymentInfo ex_tx) = ''pending''"
  "auditTrail (verification ex_tx) = []" "calculatedAmount (royaltyInfo ex_tx) = 5000"
  by (simp_all add: ex_tx_def newTransaction_sel)

lemma ex_cast:
  "castObjectIds [ex_newId] = Some [ex_newId]"
  "castObjectIds [ex_newId, ex_newId2] = Some [ex_newId, ex_newId2]"
  by code_simp+

lemma ex_ids: "ex_newId \<noteq> ex_newId2"
  by (simp add: ex_newId_def ex_newId2_def)

lemma xadd_5000: "xadd (Finite 0) 5000 = Finite 5000"
  by code_simp

lemma musics_processPayment [simp]:
  "musics (store (snd (processPayment admin toStr now req s))) = musics (store s)"
  by (simp add: processPayment_def processPayment_write_eq split: sum.splits)

lemma musics_fire [simp]: "musics (store (fire now i s)) = musics (store s)"
  by (simp add: fire_def completePayment_def split: option.splits)

lemma recordPlay_appends:
  assumes "req_musicId req = Some mid" and "mid \<noteq> []"
    and "find (\<lambda>m. music_id m = mid) (musics d) = Some m"
    and "isAvailableForBusiness m (businessType (businessInfo u))"
    and "req_playType req = Some pt" and "pt \<in> set playTypes"
    and "calculateRoyalty m (Some pt) = Some rate"
  shows "transactions (snd (recordPlay u newId now True True req d))
       = transactions d @ [newTransaction u newId now req m pt rate]"
  using assms by (simp add: recordPlay_def Let_def)

lemma ex_s1_eq:
  "store ex_s1 = ex_db'" "timers ex_s1 = []" "awaiting ex_s1 = []" "clock ex_s1 = 1000"
  using ex_play by (simp_all add: ex_s1_def ex_s0_def ex_db_def)

lemma ex_s2_eq:
  "transactions (store ex_s2) = [ex_tx1]"
  "timers ex_s2 = [\<lparr> timer_ids = [ex_newId], timer_user = ex_admin, due = 7000 \<rparr>]"
  "clock ex_s2 = 2000" "musics (store ex_s2) = [incPlays 1000 (ex_music 50)]"
proof -
  have d: "distinct (map tx_id (transactions (store ex_s1)))"
    by (simp add: ex_s1_eq ex_db'_def)
  have r: "req_transactionIds ex_pay_req = Some [ex_newId]"
    by (simp add: ex_pay_req_def)
  have pm: "req_paymentMethod ex_pay_req = None"
    by (simp add: ex_pay_req_def)
  show "transactions (store ex_s2) = [ex_tx1]"
    by (simp add: ex_s2_def processPayment_store [OF d r ex_cast(1)] ex_s1_eq ex_db'_def
        ex_tx_sel ex_tx1_def pm)
  show "timers ex_s2 = [\<lparr> timer_ids = [ex_newId], timer_user = ex_admin, due = 7000 \<rparr>]"
    by (simp add: ex_s2_def processPayment_timers [OF r ex_cast(1)] ex_s1_eq ex_db'_def ex_tx_sel)
  show "clock ex_s2 = 2000" by (simp add: ex_s2_def)
  show "musics (store ex_s2) = [incPlays 1000 (ex_music 50)]"
    by (simp add: ex_s2_def ex_s1_eq ex_db'_def)
qed

lemma ex_s3_eq:
  "transactions (store ex_s3) = [ex_tx2]" "timers ex_s3 = []" "clock ex_s3 = 7000"
  "musics (store ex_s3) = [incPlays 1000 (ex_music 50)]"
  by (simp_all add: ex_s3_def fire_def completePayment_def updateMany_def ex_s2_eq ex_cast
      ex_tx1_def ex_tx2_def initiated_status ex_tx_sel)

lemma ex_reachable: "reachable ex_s0" "reachable ex_s1" "reachable ex_s2" "reachable ex_s3"
proof -
  show r0: "reachable ex_s0" unfolding ex_s0_def by (rule reachable.init)
  have "reachable (ex_s0\<lparr> store := snd (recordPlay ex_user ex_newId 1000 True True
                       (ex_req (Some ''commercial'')) (store ex_s0)), clock := 1000 \<rparr>)"
    by (rule reachable.play [OF r0]) (simp_all add: ex_s0_def)
  then show r1: "reachable ex_s1" by (simp only: ex_s1_def)
  have "reachable ((snd (processPayment ex_admin ex_toStr 2000 ex_pay_req ex_s1))\<lparr> clock := 2000 \<rparr>)"
    by (rule reachable_pay [OF r1]) (simp add: ex_s1_eq)
  then show r2: "reachable ex_s2" by (simp only: ex_s2_def)
  have "reachable ((fire 7000 0 ex_s2)\<lparr> clock := 7000 \<rparr>)"
    by (rule reachable.complete [OF r2]) (simp_all add: ex_s2_eq)
  then show "reachable ex_s3" by (simp only: ex_s3_def)
qed

lemma ex_tx2_sel:
  "tx_id ex_tx2 = ex_newId"
  "status (paymentInfo ex_tx2) = ''completed''"
  "lmkCompliance ex_tx2 = \<lparr> reportingStatus = ''reported'', reportedToLMK = Some 7000 \<rparr>"
  "map action (auditTrail (verification ex_tx2)) = [None, Some ''payment_completed'']"
  "map timestamp (auditTrail (verification ex_tx2)) = [2000, 7000]"
  by (simp_all add: ex_tx2_def ex_tx1_def completion_effect initiated_def initiate_effect
      ex_tx_def newTransaction_sel)

lemma ex_s4_eq:
  "transactions (store ex_s4) = [ex_tx2, ex_tx3]" "timers ex_s4 = []" "clock ex_s4 = 8000"
proof -
  let ?m = "incPlays 1000 (ex_music 50)"
  have a: "isAvailableForBusiness ?m (businessType (businessInfo ex_user))"
    by (simp add: isAvailableForBusiness_def ex_music_def incPlays_def ex_user_def)
  have c: "calculateRoyalty ?m (Some ''commercial'') = Some 5000"
    by (simp add: calculateRoyalty_def ex_music_def incPlays_def)
  have f: "find (\<lambda>m. music_id m = ''64b000000000000000000001'') (musics (store ex_s3)) = Some ?m"
    by (simp add: ex_s3_eq ex_music_def incPlays_def)
  have "transactions (snd (recordPlay ex_user ex_newId2 8000 True True
           (ex_req (Some ''commercial'')) (store ex_s3)))
        = transactions (store ex_s3) @ [newTransaction ex_user ex_newId2 8000
             (ex_req (Some ''commercial'')) ?m ''commercial'' 5000]"
    by (rule recordPlay_appends [OF _ _ f a _ _ c]) (simp_all add: ex_req_def playTypes_def)
  then show "transactions (store ex_s4) = [ex_tx2, ex_tx3]"
    by (simp add: ex_s4_def ex_s3_eq ex_tx3_def)
  show "timers ex_s4 = []" by (simp add: ex_s4_def ex_s3_eq)
  show "clock ex_s4 = 8000" by (simp add: ex_s4_def)
qed

lemma ex_tx3_sel:
  "tx_id ex_tx3 = ex_newId2" "status (paymentInfo ex_tx3) = ''pending''"
  by (simp_all add: ex_tx3_def newTransaction_sel)

lemma ex_s5_eq:
  "transactions (store ex_s5) = [ex_tx2, ex_tx4]"
  "timers ex_s5 = [\<lparr> timer_ids = [ex_newId, ex_newId2], timer_user = ex_admin, due = 14000 \<rparr>]"
  "fst (processPayment ex_admin ex_toStr 9000 ex_pay_req2 ex_s4)
     = Inr \<lparr> processedTransactions = 1, totalAmount = Finite 5000, resp_currency' = ''IDR'' \<rparr>"
proof -
  have d: "distinct (map tx_id (transactions (store ex_s4)))"
    by (simp add: ex_s4_eq ex_tx2_sel ex_tx3_sel ex_ids)
  have r: "req_transactionIds ex_pay_req2 = Some [ex_newId, ex_newId2]"
    by (simp add: ex_pay_req2_def)
  have pm: "req_paymentMethod ex_pay_req2 = None"
    by (simp add: ex_pay_req2_def)
  show "transactions (store ex_s5) = [ex_tx2, ex_tx4]"
    by (simp add: ex_s5_def processPayment_store [OF d r ex_cast(2)] ex_s4_eq ex_tx2_sel
        ex_tx3_sel ex_tx4_def pm)
  show "timers ex_s5 = [\<lparr> timer_ids = [ex_newId, ex_newId2], timer_user = ex_admin, due = 14000 \<rparr>]"
    by (simp add: ex_s5_def processPayment_timers [OF r ex_cast(2)] ex_s4_eq ex_tx2_sel ex_tx3_sel)
  show "fst (processPayment ex_admin ex_toStr 9000 ex_pay_req2 ex_s4)
     = Inr \<lparr> processedTransactions = 1, totalAmount = Finite 5000, resp_currency' = ''IDR'' \<rparr>"
    by (simp add: processPayment_result [OF r ex_cast(2)] ex_s4_eq ex_tx2_sel ex_tx3_sel xadd_5000
        ex_tx3_def newTransaction_sel)
qed

lemma ex_reachable5: "reachable ex_s5"
proof -
  have "reachable (ex_s3\<lparr> store := snd (recordPlay ex_user ex_newId2 8000 True True
                       (ex_req (Some ''commercial'')) (store ex_s3)), clock := 8000 \<rparr>)"
    by (rule reachable.play [OF ex_reachable(4)])
       (simp_all add: ex_s3_eq ex_tx2_sel ex_ids [symmetric])
  then have r4: "reachable ex_s4" by (simp only: ex_s4_def)
  have "reachable ((snd (processPayment ex_admin ex_toStr 9000 ex_pay_req2 ex_s4))\<lparr> clock := 9000 \<rparr>)"
    by (rule reachable_pay [OF r4]) (simp add: ex_s4_eq)
  then show ?thesis by (simp only: ex_s5_def)
qed

text \<open>
  Claim C2. The completion is not conditioned on the status \<open>processing\<close>. A transaction
  is played, initiated and completed; a second one is played, and a batch naming both is
  initiated, which processes the second only. When the timer of that batch runs, the
  first transaction, whose status is \<open>completed\<close>, is written again: its report date moves
  and its audit trail gets a second \<open>payment_completed\<close> entry.
\<close>

theorem completion_not_guarded:
  "reachable ex_s5
   \<and> timers ex_s5 = [\<lparr> timer_ids = [ex_newId, ex_newId2], timer_user = ex_admin, due = 14000 \<rparr>]
   \<and> transactions (store ex_s5) ! 0 = ex_tx2
   \<and> status (paymentInfo ex_tx2) = ''completed''
   \<and> reportedToLMK (lmkCompliance ex_tx2) = Some 7000
   \<and> map action (auditTrail (verification ex_tx2)) = [None, Some ''payment_completed'']
   \<and> transactions (store (fire 14000 0 ex_s5)) ! 0 \<noteq> ex_tx2
   \<and> reportedToLMK (lmkCompliance (transactions (store (fire 14000 0 ex_s5)) ! 0)) = Some 14000
   \<and> map action (auditTrail (verification (transactions (store (fire 14000 0 ex_s5)) ! 0)))
       = [None, Some ''payment_completed'', Some ''payment_completed'']"
proof -
  have t: "transactions (store (fire 14000 0 ex_s5)) ! 0
         = apply_update 14000 (completion_update ex_admin 14000) ex_tx2"
    by (simp add: fire_def completePayment_def updateMany_def ex_s5_eq ex_tx2_sel ex_cast)
  have r: "reportedToLMK (lmkCompliance (apply_update 14000 (completion_update ex_admin 14000) ex_tx2))
         = Some 14000"
    by (simp add: completion_effect)
  have a: "map action (auditTrail (verification
             (apply_update 14000 (completion_update ex_admin 14000) ex_tx2)))
         = [None, Some ''payment_completed'', Some ''payment_completed'']"
    by (simp add: completion_effect ex_tx2_sel)
  have ne: "apply_update 14000 (completion_update ex_admin 14000) ex_tx2 \<noteq> ex_tx2"
    using a ex_tx2_sel(4) by auto
  show ?thesis
    unfolding t using ex_reachable5 r a ne by (simp add: ex_s5_eq ex_tx2_sel)
qed

text \<open>
  Claim C7. A transaction with an empty audit trail is initiated and then completed. The
  initiation assigns the path \<open>verification.auditTrail\<close> an object whose only key is
  \<open>$push\<close>, which is cast to one audit entry with no action, actor or details; the
  completion appends \<open>payment_completed\<close>. The trail has two entries, and the first is
  not \<open>payment_initiated\<close>.
\<close>

theorem initiation_overwrites_trail:
  "reachable ex_s3
   \<and> transactions (store ex_s1) = [ex_tx] \<and> auditTrail (verification ex_tx) = []
   \<and> status (paymentInfo ex_tx) = ''pending''
   \<and> transactions (store ex_s2) = [ex_tx1]
   \<and> auditTrail (verification ex_tx1)
       = [\<lparr> action = None, performedBy = None, timestamp = 2000, details = None \<rparr>]
   \<and> transactions (store ex_s3) = [ex_tx2]
   \<and> map action (auditTrail (verification ex_tx2)) = [None, Some ''payment_completed'']
   \<and> map action (auditTrail (verification ex_tx2))
       \<noteq> [Some ''payment_initiated'', Some ''payment_completed'']"
  using ex_reachable(4)
  by (simp add: ex_s1_eq ex_db'_def ex_tx_sel ex_s2_eq ex_s3_eq ex_tx2_sel ex_tx1_def
      initiated_def initiate_effect)

theorem pending_reports_empty_witness:
  "reachable ex_s3 \<and> transactions (store ex_s3) = [ex_tx2]
   \<and> getPendingLMKReports (store ex_s3) = []"
  using pending_reports_empty [OF ex_reachable(4)] ex_reachable(4) ex_s3_eq(1) by blast


lemma ex_h_find: "processPayment_find ex_admin ex_pay_req (store ex_s1) = Inr ex_h"
proof -
  have r: "req_transactionIds ex_pay_req = Some [ex_newId]"
    by (simp add: ex_pay_req_def)
  have pm: "req_paymentMethod ex_pay_req = None"
    by (simp add: ex_pay_req_def)
  show ?thesis
    by (simp add: processPayment_find_eq [OF r ex_cast(1)] ex_s1_eq ex_db'_def ex_tx_sel
        ex_h_def pm)
qed

lemma ex_r1_eq:
  "store ex_r1 = ex_db'" "timers ex_r1 = []" "awaiting ex_r1 = [ex_h]" "clock ex_r1 = 1000"
  by (simp_all add: ex_r1_def ex_s1_eq)

lemma ex_r2_eq:
  "transactions (store ex_r2) = [ex_tx1]"
  "timers ex_r2 = [\<lparr> timer_ids = [ex_newId], timer_user = ex_admin, due = 7000 \<rparr>]"
  "awaiting ex_r2 = [ex_h]" "clock ex_r2 = 2000"
proof -
  have d: "distinct (map tx_id (transactions (store ex_r1)))"
    by (simp add: ex_r1_eq ex_db'_def)
  have r: "req_transactionIds ex_pay_req = Some [ex_newId]"
    by (simp add: ex_pay_req_def)
  have pm: "req_paymentMethod ex_pay_req = None"
    by (simp add: ex_pay_req_def)
  show "transactions (store ex_r2) = [ex_tx1]"
    by (simp add: ex_r2_def processPayment_store [OF d r ex_cast(1)] ex_r1_eq ex_db'_def
        ex_tx_sel ex_tx1_def pm)
  show "timers ex_r2 = [\<lparr> timer_ids = [ex_newId], timer_user = ex_admin, due = 7000 \<rparr>]"
    by (simp add: ex_r2_def processPayment_timers [OF r ex_cast(1)] ex_r1_eq ex_db'_def ex_tx_sel)
  show "awaiting ex_r2 = [ex_h]" by (simp add: ex_r2_def ex_r1_eq)
  show "clock ex_r2 = 2000" by (simp add: ex_r2_def)
qed

lemma ex_r3_eq:
  "transactions (store ex_r3) = [ex_tx2]" "timers ex_r3 = []" "awaiting ex_r3 = [ex_h]"
  "clock ex_r3 = 7000"
  by (simp_all add: ex_r3_def fire_def completePayment_def updateMany_def ex_r2_eq ex_cast
      ex_tx1_def ex_tx2_def initiated_status ex_tx_sel)

lemma ex_h_write:
  assumes "transactions (store s) = [t]" and "tx_id t = ex_newId"
  shows "fst (processPayment_write ex_toStr now ex_h s)
           = \<lparr> processedTransactions = 1, totalAmount = Finite 5000, resp_currency' = ''IDR'' \<rparr>"
    and "transactions (store (snd (processPayment_write ex_toStr now ex_h s)))
           = [apply_update now (initiate_update ex_admin ex_toStr now ''bank_transfer'' ex_tx) t]"
  using assms by (simp_all add: processPayment_write_eq ex_h_def ex_tx_sel xadd_5000)

lemma ex_tx1_sel:
  "tx_id ex_tx1 = ex_newId" "status (paymentInfo ex_tx1) = ''processing''"
  "paymentDate (paymentInfo ex_tx1) = Some 2000"
  by (simp_all add: ex_tx1_def initiated_def initiate_effect ex_tx_sel)

lemma ex_r4_eq: "transactions (store ex_r4) = [ex_tx5]"
  by (simp add: ex_r4_def resume_def ex_r3_eq ex_h_write(2) [OF ex_r3_eq(1) ex_tx2_sel(1)]
      ex_tx5_def)

lemma ex_reachable_r:
  "reachable ex_r1" "reachable ex_r2" "reachable ex_r3" "reachable ex_r4"
proof -
  have "reachable (ex_s1\<lparr> awaiting := awaiting ex_s1 @ [ex_h] \<rparr>)"
    using ex_reachable(2) ex_h_find by (rule reachable.pay_find)
  then show r1: "reachable ex_r1" by (simp only: ex_r1_def)
  have "reachable ((snd (processPayment ex_admin ex_toStr 2000 ex_pay_req ex_r1))\<lparr> clock := 2000 \<rparr>)"
    by (rule reachable_pay [OF r1]) (simp add: ex_r1_eq)
  then show r2: "reachable ex_r2" by (simp only: ex_r2_def)
  have "reachable ((fire 7000 0 ex_r2)\<lparr> clock := 7000 \<rparr>)"
    by (rule reachable.complete [OF r2]) (simp_all add: ex_r2_eq)
  then show r3: "reachable ex_r3" by (simp only: ex_r3_def)
  have "reachable ((resume ex_toStr 8000 0 ex_r3)\<lparr> clock := 8000 \<rparr>)"
    by (rule reachable.pay_write [OF r3]) (simp_all add: ex_r3_eq)
  then show "reachable ex_r4" by (simp only: ex_r4_def)
qed

text \<open>
  Claim C1. The reporting status can be ahead of the payment. Two requests name the same
  pending transaction and both have it returned by their \<open>find\<close>. The first writes, and
  its timer completes the transaction: \<open>completed\<close> and \<open>reported\<close>. The second then
  writes: its \<open>updateOne\<close> filters on the id alone, so the status goes back to
  \<open>processing\<close> while the reporting status stays \<open>reported\<close>.
\<close>

theorem reported_while_processing:
  "reachable ex_r4
   \<and> transactions (store ex_r4) = [ex_tx5]
   \<and> reportingStatus (lmkCompliance ex_tx5) = ''reported''
   \<and> status (paymentInfo ex_tx5) = ''processing''"
  using ex_reachable_r(4) ex_r4_eq
  by (simp add: ex_tx5_def initiate_effect ex_tx2_sel)

text \<open>
  Claim C3. The write of the initiation is not conditioned on the status \<open>pending\<close>. The
  second of two requests for the same transaction, whose \<open>find\<close> ran while the
  transaction was pending, writes after the first: the transaction is \<open>processing\<close> by
  then, yet it is written again (its payment date moves) and counted, with its amount
  in the total. When the write comes after the timer of the first request, the
  transaction is \<open>completed\<close>, and the write sets it to \<open>processing\<close> and counts it.
\<close>

theorem stale_initiation_counted:
  "reachable ex_r2 \<and> awaiting ex_r2 = [ex_h] \<and> h_ids ex_h = [ex_newId]
   \<and> transactions (store ex_r2) = [ex_tx1] \<and> tx_id ex_tx1 = ex_newId
   \<and> status (paymentInfo ex_tx1) = ''processing''
   \<and> paymentDate (paymentInfo ex_tx1) = Some 2000
   \<and> fst (processPayment_write ex_toStr 2001 ex_h ex_r2)
       = \<lparr> processedTransactions = 1, totalAmount = Finite 5000, resp_currency' = ''IDR'' \<rparr>
   \<and> paymentDate (paymentInfo
         (transactions (store (snd (processPayment_write ex_toStr 2001 ex_h ex_r2))) ! 0))
       = Some 2001
   \<and> reachable ex_r3 \<and> awaiting ex_r3 = [ex_h]
   \<and> transactions (store ex_r3) = [ex_tx2] \<and> tx_id ex_tx2 = ex_newId
   \<and> status (paymentInfo ex_tx2) = ''completed''
   \<and> fst (processPayment_write ex_toStr 8000 ex_h ex_r3)
       = \<lparr> processedTransactions = 1, totalAmount = Finite 5000, resp_currency' = ''IDR'' \<rparr>
   \<and> status (paymentInfo
         (transactions (store (snd (processPayment_write ex_toStr 8000 ex_h ex_r3))) ! 0))
       = ''processing''"
proof -
  have h: "h_ids ex_h = [ex_newId]" by (simp add: ex_h_def)
  show ?thesis
    using ex_reachable_r(2,3)
    by (simp add: ex_r2_eq ex_r3_eq ex_tx1_sel ex_tx2_sel h
        ex_h_write [OF ex_r2_eq(1) ex_tx1_sel(1)] ex_h_write [OF ex_r3_eq(1) ex_tx2_sel(1)]
        initiate_effect)
qed

subsection \<open>Overdue payments\<close>

lemma overdue_consts:
  "fmul (fmul (fmul 1000 60) 60) 24 = 86400000"
  "fl 30 = 30"
  "fl 2592000000 = 2592000000"
  "fl 2592000001 = 2592000001"
  "30 < fl (2592000001 / 86400000)"
  by code_simp+

lemma days_since_play:
  "30 < fdiv (fsub (of_int now) (of_int pd)) 86400000 \<longleftrightarrow> 2592000000 < now - pd"
proof -
  define d where "d = now - pd"
  have sub: "fsub (of_int now) (of_int pd) = fl (of_int d)"
    by (simp add: fsub_def d_def)
  show ?thesis
  proof (cases "d \<le> 2592000000")
    case True
    then have "(of_int d :: rat) \<le> of_int 2592000000" by (simp only: of_int_le_iff)
    then have "(of_int d :: rat) \<le> 2592000000" by simp
    then have "fl (of_int d) \<le> fl 2592000000" by (rule fl_le) simp
    then have "fl (of_int d) \<le> 2592000000" by (simp only: overdue_consts)
    then have "fl (of_int d) / 86400000 \<le> 30" by simp
    then have "fl (fl (of_int d) / 86400000) \<le> fl 30" by (rule fl_le) simp
    then have "\<not> 30 < fdiv (fl (of_int d)) 86400000"
      by (simp add: fdiv_def overdue_consts)
    with True show ?thesis by (simp add: sub d_def)
  next
    case False
    then have "2592000001 \<le> d" by simp
    then have "(of_int 2592000001 :: rat) \<le> of_int d" by (simp only: of_int_le_iff)
    then have "(2592000001 :: rat) \<le> of_int d" by simp
    then have "fl 2592000001 \<le> fl (of_int d)" by (intro fl_mono_pos) simp_all
    then have "2592000001 \<le> fl (of_int d)" by (simp only: overdue_consts)
    then have "2592000001 / 86400000 \<le> fl (of_int d) / 86400000"
      by (simp add: divide_right_mono)
    then have "fl (2592000001 / 86400000) \<le> fl (fl (of_int d) / 86400000)"
      by (intro fl_mono_pos) simp_all
    with overdue_consts(5) have "30 < fdiv (fl (of_int d)) 86400000"
      by (simp add: fdiv_def)
    with False show ?thesis by (simp add: sub d_def)
  qed
qed

text \<open>
  Claim C9. \<open>isPaymentOverdue\<close> at time \<open>now\<close> holds exactly when the payment status is
  not \<open>completed\<close> and more than 30 days, counted in milliseconds, have passed since the
  play date; the division by the milliseconds of a day is the double-precision one. At
  exactly 30 days it is false, and it is false for a completed transaction of any age.
\<close>

theorem overdue_after_30_days:
  "isPaymentOverdue t now \<longleftrightarrow>
     status (paymentInfo t) \<noteq> ''completed''
     \<and> 30 * 24 * 60 * 60 * 1000 < now - playDate (playInfo t)"
  by (simp add: isPaymentOverdue_def overdue_consts(1) days_since_play)

theorem overdue_after_30_days_witness:
  "status (paymentInfo ex_tx) \<noteq> ''completed''
   \<and> \<not> isPaymentOverdue ex_tx (1000 + 2592000000)
   \<and> isPaymentOverdue ex_tx (1000 + 2592000001)
   \<and> status (paymentInfo ex_tx2) = ''completed''
   \<and> \<not> isPaymentOverdue ex_tx2 (1000 + 2592000001)"
proof -
  have pd: "playDate (playInfo ex_tx) = 1000"
    by (simp add: ex_tx_def newTransaction_def Let_def)
  show ?thesis
    using overdue_after_30_days [of ex_tx "1000 + 2592000000"]
      overdue_after_30_days [of ex_tx "1000 + 2592000001"]
      overdue_after_30_days [of ex_tx2 "1000 + 2592000001"]
    by (simp add: ex_tx_sel ex_tx2_sel pd)
qed

end
